theory Spec2Isabelle
  imports Main "HOL-Library.Word" "HOL-Library.Sublist" "HOL-Library.List_Lexorder"
    "HOL-Library.Char_ord"
begin

unbundle bit_operations_syntax

section \<open>Data model of the marketplace canister (index.ts)\<close>

text \<open>
  Candid \<open>text\<close> values are modelled as HOL strings, read as sequences of code units
  below 256 (ASCII and Latin-1); \<open>nat64\<close> as \<open>64 word\<close>. A \<open>Principal\<close> is carried by
  its textual form, the value \<open>toString()\<close> returns and the only thing the code
  compares.

  The query methods lower-case three fields of a stored \<open>DataItem\<close>: title, description
  and dataFormat. On Unicode text \<open>String.prototype.toLowerCase\<close> is not a map on single
  code units, so these three fields are sequences over a code unit type \<open>'c\<close>. Records
  built from a payload have \<open>'c = char\<close>; the query methods are defined for every
  \<open>'c\<close>, in particular for text given by its Unicode code points (\<open>'c = nat\<close>).
\<close>

datatype Principal = Principal (toString: string)

record 'c DataItem =
  id :: string
  title :: "'c list"
  description :: "'c list"
  price :: "64 word"
  seller :: Principal
  attachmentURL :: string
  dataFormat :: "'c list"
  status :: string
  quality :: string
  rating :: "64 word"

record Purchaser =
  id :: string
  owner :: Principal
  name :: string
  price :: "64 word"
  message :: string
  purchasedItem :: "string list"

record PurchaserPayload =
  name :: string
  price :: "64 word"
  message :: string

record DataItemPayload =
  title :: string
  description :: string
  price :: "64 word"
  attachmentURL :: string
  dataFormat :: string
  status :: string
  quality :: string
  rating :: "64 word"

datatype Message =
    NotFound string
  | InvalidPayload string
  | PaymentFailed string
  | PaymentCompleted string
  | AuthenticationFailed string

datatype ('a, 'e) Result = Ok 'a | Err 'e

subsection \<open>The record store\<close>

text \<open>
  Modelled from the spec: azle's \<open>StableBTreeMap\<close> is an imported library, not part of
  index.ts. Following section 4.3 of the specification it is an ordered mapping from
  identifier to record with get, insert (upsert), remove and values; the model is an
  association list kept in ascending key order, keys compared code unit by code unit.
\<close>

type_synonym 'v StableBTreeMap = "(string \<times> 'v) list"

definition btree_get :: "'v StableBTreeMap \<Rightarrow> string \<Rightarrow> 'v option" where
  "btree_get m k = map_of m k"

fun btree_insert :: "string \<Rightarrow> 'v \<Rightarrow> 'v StableBTreeMap \<Rightarrow> 'v StableBTreeMap" where
  "btree_insert k v [] = [(k, v)]"
| "btree_insert k v ((k', v') # m) =
     (if k = k' then (k, v) # m
      else if k < k' then (k, v) # (k', v') # m
      else (k', v') # btree_insert k v m)"

definition btree_remove :: "string \<Rightarrow> 'v StableBTreeMap \<Rightarrow> 'v StableBTreeMap" where
  "btree_remove k m = filter (\<lambda>kv. fst kv \<noteq> k) m"

definition btree_values :: "'v StableBTreeMap \<Rightarrow> 'v list" where
  "btree_values m = map snd m"

text \<open>The two module-level stores; every canister method reads and returns them.\<close>

record 'c canister =
  DataItemsStorage :: "'c DataItem StableBTreeMap"
  purchasersStorage :: "Purchaser StableBTreeMap"

definition init_canister :: "char canister" where
  "init_canister = \<lparr>DataItemsStorage = [], purchasersStorage = []\<rparr>"

section \<open>Helpers\<close>

subsection \<open>\<open>isInvalidString\<close>: trim, then test the length\<close>

text \<open>
  \<open>String.prototype.trim\<close> strips white space and line terminators from both ends;
  below 256 these are TAB, LF, VT, FF, CR, SPACE and NBSP.
\<close>

definition isWhiteSpace :: "char \<Rightarrow> bool" where
  "isWhiteSpace c = ((of_char c :: nat) \<in> {9, 10, 11, 12, 13, 32, 160})"

definition trim :: "string \<Rightarrow> string" where
  "trim str = rev (dropWhile isWhiteSpace (rev (dropWhile isWhiteSpace str)))"

definition isInvalidString :: "string \<Rightarrow> bool" where
  "isInvalidString str = (length (trim str) = 0)"

subsection \<open>\<open>isValidUuid\<close>: the regular expression, as written\<close>

text \<open>
  The pattern of \<open>isValidUuid\<close> is a sequence of assertions, literal characters and a
  character class repeated a fixed number of times, so matching needs no backtracking.
  A class is given by the characters it lists. The \<open>i\<close> flag compares characters after
  \<open>canonicalize\<close> (upper-casing; the two Latin-1 letters whose upper case lies above
  255 are left alone, which keeps them distinct from every other character).
\<close>

datatype re_term =
    Caret
  | Dollar
  | WordBoundary
  | Literal char
  | ClassRep string nat

definition canonicalize :: "char \<Rightarrow> char" where
  "canonicalize c =
     (let n = (of_char c :: nat) in
      if (97 \<le> n \<and> n \<le> 122) \<or> (224 \<le> n \<and> n \<le> 254 \<and> n \<noteq> 247)
      then char_of (n - 32) else c)"

definition class_matches :: "string \<Rightarrow> char \<Rightarrow> bool" where
  "class_matches cls c = list_ex (\<lambda>d. canonicalize d = canonicalize c) cls"

definition isWordChar :: "char \<Rightarrow> bool" where
  "isWordChar c =
     (let n = (of_char c :: nat) in
      (48 \<le> n \<and> n \<le> 57) \<or> (65 \<le> n \<and> n \<le> 90) \<or> (97 \<le> n \<and> n \<le> 122) \<or> n = 95)"

definition isWordCharOpt :: "char option \<Rightarrow> bool" where
  "isWordCharOpt co = (case co of None \<Rightarrow> False | Some c \<Rightarrow> isWordChar c)"

definition next_char :: "string \<Rightarrow> char option" where
  "next_char s = (case s of [] \<Rightarrow> None | c # _ \<Rightarrow> Some c)"

text \<open>
  \<open>re_match r prev s\<close>: does the pattern \<open>r\<close> match at the current position, where
  \<open>prev\<close> is the character just before it (\<open>None\<close> at the start of the input) and \<open>s\<close>
  the rest of the input.
\<close>

fun re_match :: "re_term list \<Rightarrow> char option \<Rightarrow> string \<Rightarrow> bool" where
  "re_match [] prev s = True"
| "re_match (Caret # r) prev s = (prev = None \<and> re_match r prev s)"
| "re_match (Dollar # r) prev s = (s = [] \<and> re_match r prev s)"
| "re_match (WordBoundary # r) prev s =
     (isWordCharOpt prev \<noteq> isWordCharOpt (next_char s) \<and> re_match r prev s)"
| "re_match (Literal c # r) prev [] = False"
| "re_match (Literal c # r) prev (x # xs) =
     (canonicalize x = canonicalize c \<and> re_match r (Some x) xs)"
| "re_match (ClassRep cls 0 # r) prev s = re_match r prev s"
| "re_match (ClassRep cls (Suc n) # r) prev [] = False"
| "re_match (ClassRep cls (Suc n) # r) prev (x # xs) =
     (class_matches cls x \<and> re_match (ClassRep cls n # r) (Some x) xs)"

text \<open>
  \<open>RegExp.prototype.test\<close> on a freshly created expression (\<open>lastIndex = 0\<close>): try every
  start position from the left.
\<close>

fun regex_test :: "re_term list \<Rightarrow> char option \<Rightarrow> string \<Rightarrow> bool" where
  "regex_test r prev [] = re_match r prev []"
| "regex_test r prev (x # xs) = (re_match r prev (x # xs) \<or> regex_test r (Some x) xs)"

definition hex_class :: string where
  "hex_class = ''0123456789abcdefABCDEF''"

definition regexExp :: "re_term list" where
  "regexExp =
     [Caret, ClassRep hex_class 8, WordBoundary, Literal (CHR ''-''),
      ClassRep hex_class 4, WordBoundary, Literal (CHR ''-''),
      ClassRep hex_class 4, WordBoundary, Literal (CHR ''-''),
      ClassRep hex_class 4, WordBoundary, Literal (CHR ''-''),
      ClassRep hex_class 12, Dollar]"

definition isValidUuid :: "string \<Rightarrow> bool" where
  "isValidUuid ident = regex_test regexExp None ident"

subsection \<open>Payload validation\<close>

abbreviation sq :: string where
  "sq \<equiv> [CHR 0x27]"

abbreviation dq :: string where
  "dq \<equiv> [CHR 0x22]"

text \<open>Decimal rendering of a \<open>bigint\<close> inside a template literal.\<close>

definition decimal_digit :: "nat \<Rightarrow> char" where
  "decimal_digit d = ''0123456789'' ! d"

fun bigint_toString :: "nat \<Rightarrow> string" where
  "bigint_toString b =
     (if 10 \<le> b then bigint_toString (b div 10) @ [decimal_digit (b mod 10)]
      else [decimal_digit b])"

declare bigint_toString.simps [simp del]

definition validateDataItemPayload :: "DataItemPayload \<Rightarrow> string list" where
  "validateDataItemPayload payload =
     (let errors = [];
          errors = (if isInvalidString (DataItemPayload.description payload)
                    then errors @ [''description='' @ sq @ DataItemPayload.description payload
                                   @ sq @ '' cannot be empty.'']
                    else errors);
          errors = (if isInvalidString (DataItemPayload.quality payload)
                    then errors @ [''quality='' @ sq @ DataItemPayload.quality payload
                                   @ sq @ '' cannot be empty.'']
                    else errors);
          errors = (if isInvalidString (DataItemPayload.title payload)
                    then errors @ [''title='' @ sq @ DataItemPayload.title payload
                                   @ sq @ '' cannot be empty.'']
                    else errors);
          errors = (if isInvalidString (DataItemPayload.attachmentURL payload)
                    then errors @ [''attachmentURL='' @ sq @ DataItemPayload.attachmentURL payload
                                   @ sq @ '' cannot be empty.'']
                    else errors);
          errors = (if DataItemPayload.price payload = 0
                    then errors @ [''price='' @ sq
                                   @ bigint_toString (unat (DataItemPayload.price payload))
                                   @ sq @ '' must be greater than zero.'']
                    else errors)
      in errors)"

definition validatePurchaserPayload :: "PurchaserPayload \<Rightarrow> string list" where
  "validatePurchaserPayload payload =
     (let errors = [];
          errors = (if isInvalidString (PurchaserPayload.name payload)
                    then errors @ [''name='' @ sq @ PurchaserPayload.name payload
                                   @ sq @ '' cannot be empty.'']
                    else errors);
          errors = (if isInvalidString (PurchaserPayload.message payload)
                    then errors @ [''message='' @ sq @ PurchaserPayload.message payload
                                   @ sq @ '' cannot be empty.'']
                    else errors);
          errors = (if PurchaserPayload.price payload = 0
                    then errors @ [''price='' @ sq
                                   @ bigint_toString (unat (PurchaserPayload.price payload))
                                   @ sq @ '' must be greater than zero.'']
                    else errors)
      in errors)"


subsection \<open>Identifier generation\<close>

text \<open>
  The last lines of index.ts replace \<open>globalThis.crypto\<close> by an object whose only
  member \<open>getRandomValues\<close> ignores its argument and returns a fresh array of 32 bytes,
  each \<open>Math.floor(Math.random() * 256)\<close>. The outcome of the \<open>i\<close>-th call of
  \<open>Math.random\<close> within one invocation is the input \<open>draws i\<close>.
\<close>

definition getRandomValues :: "(nat \<Rightarrow> 8 word) \<Rightarrow> 8 word list" where
  "getRandomValues draws = map draws [0..<32]"

text \<open>
  Modelled from the spec: \<open>uuidv4\<close> comes from the npm package uuid, not from index.ts.
  The specification calls its result the canonical identifier, a 36-character
  hyphenated hexadecimal string; the model follows the package: it takes the array
  that \<open>getRandomValues\<close> returns, forces the version and variant bits of bytes 6 and
  8, and prints bytes 0 to 15 as two lower-case hexadecimal digits each, grouped
  8-4-4-4-12. No other source of randomness exists (\<open>crypto.randomUUID\<close> is undefined
  after the replacement above).
\<close>

definition hex_digit :: "nat \<Rightarrow> char" where
  "hex_digit n = ''0123456789abcdef'' ! n"

definition byteToHex :: "8 word \<Rightarrow> string" where
  "byteToHex b = [hex_digit (unat b div 16), hex_digit (unat b mod 16)]"

text \<open>The value of a lower-case hexadecimal digit: the inverse of \<open>hex_digit\<close> below 16.\<close>

definition hex_value :: "char \<Rightarrow> nat" where
  "hex_value c = (let n = of_char c in if n < 58 then n - 48 else n - 87)"

definition unsafeStringify :: "8 word list \<Rightarrow> string" where
  "unsafeStringify arr =
     concat (map byteToHex (take 4 arr)) @ ''-'' @
     concat (map byteToHex (take 2 (drop 4 arr))) @ ''-'' @
     concat (map byteToHex (take 2 (drop 6 arr))) @ ''-'' @
     concat (map byteToHex (take 2 (drop 8 arr))) @ ''-'' @
     concat (map byteToHex (take 6 (drop 10 arr)))"

definition set_version_bits :: "8 word list \<Rightarrow> 8 word list" where
  "set_version_bits rnds =
     (let rnds = rnds[6 := (rnds ! 6 AND 0x0f) OR 0x40];
          rnds = rnds[8 := (rnds ! 8 AND 0x3f) OR 0x80]
      in rnds)"

definition uuidv4 :: "(nat \<Rightarrow> 8 word) \<Rightarrow> string" where
  "uuidv4 draws = unsafeStringify (set_version_bits (getRandomValues draws))"

subsection \<open>Strings and arrays of the query methods\<close>

text \<open>
  \<open>String.prototype.toLowerCase\<close> applies the locale-independent case mappings of the
  Unicode Character Database to the code points of a text. Nearly all of them replace
  one code point by one code point (the simple mapping of UnicodeData.txt).
  SpecialCasing.txt adds two locale-independent exceptions: U+0130 becomes the two
  code points U+0069 U+0307, and the capital sigma U+03A3 becomes the final sigma
  U+03C2 where it ends a word, that is where a cased letter stands before it and none
  after it, case-ignorable code points in between not counting. So the result depends
  on the context of a letter and can be longer than the text.

  The database is not part of the repository: its simple lower-case mapping and the
  properties Cased and Case_Ignorable are the argument \<open>db\<close>. A text is given by its
  code points; for well-formed text a search on code points finds the same
  occurrences as a search on UTF-16 code units.
\<close>

record case_tables =
  lower_mapping :: "nat \<Rightarrow> nat"
  is_cased :: "nat \<Rightarrow> bool"
  is_case_ignorable :: "nat \<Rightarrow> bool"

text \<open>A cased letter comes next in \<open>cps\<close>, after case-ignorable code points only.\<close>

fun cased_letter_next :: "case_tables \<Rightarrow> nat list \<Rightarrow> bool" where
  "cased_letter_next db [] = False"
| "cased_letter_next db (c # cs) =
     (is_cased db c \<or> (is_case_ignorable db c \<and> cased_letter_next db cs))"

text \<open>
  \<open>lower_from db before cps\<close> lower-cases \<open>cps\<close>, where \<open>before\<close> holds the code points
  already passed, the nearest first.
\<close>

fun lower_from :: "case_tables \<Rightarrow> nat list \<Rightarrow> nat list \<Rightarrow> nat list" where
  "lower_from db before [] = []"
| "lower_from db before (c # cs) =
     (if c = 0x130 then [0x69, 0x307]
      else if c = 0x3A3 \<and> cased_letter_next db before \<and> \<not> cased_letter_next db cs
      then [0x3C2]
      else [lower_mapping db c]) @ lower_from db (c # before) cs"

definition toLowerCase :: "case_tables \<Rightarrow> nat list \<Rightarrow> nat list" where
  "toLowerCase db str = lower_from db [] str"

text \<open>
  Below 256 neither exception applies and the simple mapping moves A-Z and the Latin-1
  capitals by 32, so on text of such code units \<open>toLowerCase\<close> is a map over the single
  code units.
\<close>

definition lower_char :: "char \<Rightarrow> char" where
  "lower_char c =
     (let n = (of_char c :: nat) in
      if (65 \<le> n \<and> n \<le> 90) \<or> (192 \<le> n \<and> n \<le> 222 \<and> n \<noteq> 215)
      then char_of (n + 32) else c)"

definition toLowerCase_latin1 :: "string \<Rightarrow> string" where
  "toLowerCase_latin1 str = map lower_char str"


text \<open>
  \<open>Number(b)\<close> for a non-negative \<open>bigint\<close>: the nearest double, ties to even. Below
  \<open>2 ^ 53\<close> the value is exact; above, the low bits beyond the 53-bit significand are
  rounded away. (The arguments here stay below \<open>2 ^ 65\<close>, far from overflow.)
\<close>

fun bit_length :: "nat \<Rightarrow> nat" where
  "bit_length n = (if n = 0 then 0 else Suc (bit_length (n div 2)))"

declare bit_length.simps [simp del]

definition Number :: "nat \<Rightarrow> nat" where
  "Number b =
     (let e = bit_length b - 53 in
      if e = 0 then b
      else
        let q = b div 2 ^ e; r = b mod 2 ^ e; half = 2 ^ (e - 1);
            q = (if half < r \<or> (r = half \<and> odd q) then q + 1 else q)
        in q * 2 ^ e)"

text \<open>
  \<open>Array.prototype.slice(start, end)\<close> for non-negative integral arguments: both are
  clamped to the length, and an end before the start gives the empty array.
\<close>

definition array_slice :: "'a list \<Rightarrow> nat \<Rightarrow> nat \<Rightarrow> 'a list" where
  "array_slice xs start fin =
     (let len = length xs; k = min start len; final = min fin len
      in take (final - k) (drop k xs))"

text \<open>An array inside a template literal is joined with commas.\<close>

fun join_comma :: "string list \<Rightarrow> string" where
  "join_comma [] = []"
| "join_comma [x] = x"
| "join_comma (x # y # ys) = x @ '','' @ join_comma (y # ys)"

section \<open>Canister methods\<close>

text \<open>
  Query methods read the canister; update methods take the caller (\<open>ic.caller()\<close>)
  and return the result together with the canister after the call.

  The four payload-taking methods start with the guard
  \<open>typeof payload !== "object" || Object.keys(payload).length === 0\<close>. A decoded Candid
  record is an object whose keys are its declared fields, so \<open>typeof\<close> always answers
  \<open>"object"\<close> and the guard reduces to the test on the number of keys.
\<close>

definition DataItemPayload_keys :: "DataItemPayload \<Rightarrow> string list" where
  [simp]: "DataItemPayload_keys payload =
     [''title'', ''description'', ''price'', ''attachmentURL'', ''dataFormat'', ''status'',
      ''quality'', ''rating'']"

definition PurchaserPayload_keys :: "PurchaserPayload \<Rightarrow> string list" where
  [simp]: "PurchaserPayload_keys payload = [''name'', ''price'', ''message'']"

definition getDataItems :: "'c canister \<Rightarrow> 'c DataItem list" where
  "getDataItems st = btree_values (DataItemsStorage st)"

definition getPurchasers :: "'c canister \<Rightarrow> Purchaser list" where
  "getPurchasers st = btree_values (purchasersStorage st)"

definition getDataItem :: "'c canister \<Rightarrow> string \<Rightarrow> ('c DataItem, string) Result" where
  "getDataItem st ident =
     (if \<not> isValidUuid ident
      then Err (''Id='' @ dq @ ident @ dq @ '' is not in the valid uuid format.'')
      else case btree_get (DataItemsStorage st) ident of
             None \<Rightarrow> Err ''Data Item not found''
           | Some d \<Rightarrow> Ok d)"

definition getPurchaser :: "'c canister \<Rightarrow> string \<Rightarrow> (Purchaser, string) Result" where
  "getPurchaser st ident =
     (if \<not> isValidUuid ident
      then Err (''Id='' @ dq @ ident @ dq @ '' is not in the valid uuid format.'')
      else case btree_get (purchasersStorage st) ident of
             None \<Rightarrow> Err ''Purchaser not found''
           | Some p \<Rightarrow> Ok p)"

definition addDataItem ::
  "Principal \<Rightarrow> (nat \<Rightarrow> 8 word) \<Rightarrow> DataItemPayload \<Rightarrow> char canister
     \<Rightarrow> (char DataItem, Message) Result \<times> char canister" where
  "addDataItem caller draws payload st =
     (if length (DataItemPayload_keys payload) = 0
      then (Err (NotFound ''invalid payload''), st)
      else
      let validatePayloadErrors = validateDataItemPayload payload in
      if length validatePayloadErrors \<noteq> 0
      then (Err (InvalidPayload
                  (''Invalid payload. Errors=['' @ join_comma validatePayloadErrors @ '']'')), st)
      else
        let data = \<lparr>DataItem.id = uuidv4 draws,
                    DataItem.title = DataItemPayload.title payload,
                    DataItem.description = DataItemPayload.description payload,
                    DataItem.price = DataItemPayload.price payload,
                    DataItem.seller = caller,
                    DataItem.attachmentURL = DataItemPayload.attachmentURL payload,
                    DataItem.dataFormat = DataItemPayload.dataFormat payload,
                    DataItem.status = DataItemPayload.status payload,
                    DataItem.quality = DataItemPayload.quality payload,
                    DataItem.rating = DataItemPayload.rating payload\<rparr>
        in (Ok data,
            st\<lparr>DataItemsStorage := btree_insert (DataItem.id data) data (DataItemsStorage st)\<rparr>))"

definition addPurchaser ::
  "Principal \<Rightarrow> (nat \<Rightarrow> 8 word) \<Rightarrow> PurchaserPayload \<Rightarrow> 'c canister
     \<Rightarrow> (Purchaser, Message) Result \<times> 'c canister" where
  "addPurchaser caller draws payload st =
     (if length (PurchaserPayload_keys payload) = 0
      then (Err (NotFound ''invalid payoad''), st)
      else
      let validatePayloadErrors = validatePurchaserPayload payload in
      if length validatePayloadErrors \<noteq> 0
      then (Err (InvalidPayload
                  (''Invalid payload. Errors=['' @ join_comma validatePayloadErrors @ '']'')), st)
      else
        let purchaser = \<lparr>Purchaser.id = uuidv4 draws,
                         Purchaser.owner = caller,
                         Purchaser.name = PurchaserPayload.name payload,
                         Purchaser.price = PurchaserPayload.price payload,
                         Purchaser.message = PurchaserPayload.message payload,
                         Purchaser.purchasedItem = []\<rparr>
        in (Ok purchaser,
            st\<lparr>purchasersStorage :=
                 btree_insert (Purchaser.id purchaser) purchaser (purchasersStorage st)\<rparr>))"

definition updateDataItem ::
  "Principal \<Rightarrow> string \<Rightarrow> DataItemPayload \<Rightarrow> char canister
     \<Rightarrow> (char DataItem, Message) Result \<times> char canister" where
  "updateDataItem caller ident payload st =
     (if length (DataItemPayload_keys payload) = 0
      then (Err (NotFound ''invalid payoad''), st)
      else if \<not> isValidUuid ident
      then (Err (InvalidPayload
                  (''Id='' @ dq @ ident @ dq @ '' is not in the valid uuid format.'')), st)
      else
        let validatePayloadErrors = validateDataItemPayload payload in
        if length validatePayloadErrors \<noteq> 0
        then (Err (InvalidPayload
                    (''Invalid payload. Errors=['' @ join_comma validatePayloadErrors @ '']'')), st)
        else case btree_get (DataItemsStorage st) ident of
          None \<Rightarrow> (Err (NotFound ''Data not found''), st)
        | Some data \<Rightarrow>
            if toString (DataItem.seller data) \<noteq> toString caller
            then (Err (AuthenticationFailed ''Caller is not the seller of the item.''), st)
            else
              let updatedData = data\<lparr>DataItem.title := DataItemPayload.title payload,
                                      DataItem.description := DataItemPayload.description payload,
                                      DataItem.price := DataItemPayload.price payload,
                                      DataItem.attachmentURL := DataItemPayload.attachmentURL payload,
                                      DataItem.dataFormat := DataItemPayload.dataFormat payload,
                                      DataItem.status := DataItemPayload.status payload,
                                      DataItem.quality := DataItemPayload.quality payload,
                                      DataItem.rating := DataItemPayload.rating payload\<rparr>
              in (Ok updatedData,
                  st\<lparr>DataItemsStorage := btree_insert ident updatedData (DataItemsStorage st)\<rparr>))"

definition updatePurchaser ::
  "Principal \<Rightarrow> string \<Rightarrow> PurchaserPayload \<Rightarrow> 'c canister
     \<Rightarrow> (Purchaser, Message) Result \<times> 'c canister" where
  "updatePurchaser caller ident payload st =
     (if length (PurchaserPayload_keys payload) = 0
      then (Err (NotFound ''invalid payoad''), st)
      else if \<not> isValidUuid ident
      then (Err (InvalidPayload
                  (''Id='' @ dq @ ident @ dq @ '' is not in the valid uuid format.'')), st)
      else
        let validatePayloadErrors = validatePurchaserPayload payload in
        if length validatePayloadErrors \<noteq> 0
        then (Err (InvalidPayload
                    (''Invalid payload. Errors=['' @ join_comma validatePayloadErrors @ '']'')), st)
        else case btree_get (purchasersStorage st) ident of
          None \<Rightarrow> (Err (NotFound ''Purchaser not found''), st)
        | Some purchaser \<Rightarrow>
            if toString (Purchaser.owner purchaser) \<noteq> toString caller
            then (Err (AuthenticationFailed ''Caller is not the purchaser.''), st)
            else
              let updatedPurchaser =
                    purchaser\<lparr>Purchaser.name := PurchaserPayload.name payload,
                              Purchaser.price := PurchaserPayload.price payload,
                              Purchaser.message := PurchaserPayload.message payload\<rparr>
              in (Ok updatedPurchaser,
                  st\<lparr>purchasersStorage :=
                       btree_insert ident updatedPurchaser (purchasersStorage st)\<rparr>))"

definition deleteDataItem ::
  "Principal \<Rightarrow> string \<Rightarrow> 'c canister \<Rightarrow> (string, Message) Result \<times> 'c canister" where
  "deleteDataItem caller ident st =
     (if \<not> isValidUuid ident
      then (Err (InvalidPayload
                  (''Id='' @ dq @ ident @ dq @ '' is not in the valid uuid format.'')), st)
      else case btree_get (DataItemsStorage st) ident of
        None \<Rightarrow>
          (Err (NotFound (''cannot delete the DataItem: DataItem with id='' @ ident
                          @ '' not found'')), st)
      | Some dataItem \<Rightarrow>
          if toString (DataItem.seller dataItem) \<noteq> toString caller
          then (Err (AuthenticationFailed ''Caller is not the seller of the item.''), st)
          else (Ok (DataItem.id dataItem),
                st\<lparr>DataItemsStorage := btree_remove ident (DataItemsStorage st)\<rparr>))"

definition deletePurchaser ::
  "Principal \<Rightarrow> string \<Rightarrow> 'c canister \<Rightarrow> (string, Message) Result \<times> 'c canister" where
  "deletePurchaser caller ident st =
     (if \<not> isValidUuid ident
      then (Err (InvalidPayload
                  (''Id='' @ dq @ ident @ dq @ '' is not in the valid uuid format.'')), st)
      else case btree_get (purchasersStorage st) ident of
        None \<Rightarrow>
          (Err (NotFound (''cannot delete the Purchaser: Purchaser with id='' @ ident
                          @ '' not found'')), st)
      | Some purchaser \<Rightarrow>
          if toString (Purchaser.owner purchaser) \<noteq> toString caller
          then (Err (AuthenticationFailed ''Caller is not the purchaser.''), st)
          else (Ok (Purchaser.id purchaser),
                st\<lparr>purchasersStorage := btree_remove ident (purchasersStorage st)\<rparr>))"

definition addPurchasedItem ::
  "Principal \<Rightarrow> string \<Rightarrow> string \<Rightarrow> 'c canister
     \<Rightarrow> (string, Message) Result \<times> 'c canister" where
  "addPurchasedItem caller purchaserId itemId st =
     (if \<not> isValidUuid purchaserId
      then (Err (InvalidPayload
                  (''purchaserId='' @ dq @ purchaserId @ dq
                   @ '' is not in the valid uuid format.'')), st)
      else if \<not> isValidUuid itemId
      then (Err (InvalidPayload
                  (''itemId='' @ dq @ itemId @ dq @ '' is not in the valid uuid format.'')), st)
      else case btree_get (purchasersStorage st) purchaserId of
        None \<Rightarrow> (Err (NotFound ''Purchaser not found''), st)
      | Some purchaser \<Rightarrow>
          if toString (Purchaser.owner purchaser) \<noteq> toString caller
          then (Err (AuthenticationFailed ''Caller is not the purchaser.''), st)
          else
            let purchaser = purchaser\<lparr>Purchaser.purchasedItem :=
                                        Purchaser.purchasedItem purchaser @ [itemId]\<rparr>
            in (Ok ''Item added to Purchaser'',
                st\<lparr>purchasersStorage :=
                     btree_insert purchaserId purchaser (purchasersStorage st)\<rparr>))"



definition getInitialDataItem :: "'c canister \<Rightarrow> 'c DataItem list" where
  "getInitialDataItem st =
     (let datas = btree_values (DataItemsStorage st) in array_slice datas 0 2)"

text \<open>\<open>start + limit\<close> is a \<open>bigint\<close> sum: it does not wrap at 64 bits.\<close>

definition getMoreDataItems :: "'c canister \<Rightarrow> 64 word \<Rightarrow> 64 word \<Rightarrow> 'c DataItem list" where
  "getMoreDataItems st start limit =
     (let datas = btree_values (DataItemsStorage st) in
      array_slice datas (Number (unat start)) (Number (unat start + unat limit)))"

section \<open>Notions of the specification\<close>

text \<open>
  The canonical identifier format in the specification's words: five groups of 8, 4, 4,
  4 and 12 hexadecimal digits (either case), separated by hyphens.
\<close>

definition isHexDigit :: "char \<Rightarrow> bool" where
  "isHexDigit c =
     (let n = (of_char c :: nat) in
      (48 \<le> n \<and> n \<le> 57) \<or> (97 \<le> n \<and> n \<le> 102) \<or> (65 \<le> n \<and> n \<le> 70))"

definition uuid_pattern :: "string \<Rightarrow> bool" where
  "uuid_pattern s =
     (\<exists>g1 g2 g3 g4 g5.
        s = g1 @ ''-'' @ g2 @ ''-'' @ g3 @ ''-'' @ g4 @ ''-'' @ g5 \<and>
        length g1 = 8 \<and> length g2 = 4 \<and> length g3 = 4 \<and> length g4 = 4 \<and> length g5 = 12 \<and>
        list_all isHexDigit (g1 @ g2 @ g3 @ g4 @ g5))"



text \<open>In both stores every record sits under the key that its \<open>id\<close> field names.\<close>

definition ids_match_keys :: "'c canister \<Rightarrow> bool" where
  "ids_match_keys st =
     (list_all (\<lambda>kv. DataItem.id (snd kv) = fst kv) (DataItemsStorage st) \<and>
      list_all (\<lambda>kv. Purchaser.id (snd kv) = fst kv) (purchasersStorage st))"

text \<open>
  What an update is specified to produce: the payload's fields over the stored record,
  with \<open>id\<close> and \<open>seller\<close> (for a purchaser \<open>id\<close>, \<open>owner\<close> and \<open>purchasedItem\<close>, which
  the payload does not carry) taken from the stored record.
\<close>

definition DataItem_with_payload :: "char DataItem \<Rightarrow> DataItemPayload \<Rightarrow> char DataItem" where
  "DataItem_with_payload d payload =
     \<lparr>DataItem.id = DataItem.id d,
      DataItem.title = DataItemPayload.title payload,
      DataItem.description = DataItemPayload.description payload,
      DataItem.price = DataItemPayload.price payload,
      DataItem.seller = DataItem.seller d,
      DataItem.attachmentURL = DataItemPayload.attachmentURL payload,
      DataItem.dataFormat = DataItemPayload.dataFormat payload,
      DataItem.status = DataItemPayload.status payload,
      DataItem.quality = DataItemPayload.quality payload,
      DataItem.rating = DataItemPayload.rating payload\<rparr>"

definition Purchaser_with_payload :: "Purchaser \<Rightarrow> PurchaserPayload \<Rightarrow> Purchaser" where
  "Purchaser_with_payload p payload =
     \<lparr>Purchaser.id = Purchaser.id p,
      Purchaser.owner = Purchaser.owner p,
      Purchaser.name = PurchaserPayload.name payload,
      Purchaser.price = PurchaserPayload.price payload,
      Purchaser.message = PurchaserPayload.message payload,
      Purchaser.purchasedItem = Purchaser.purchasedItem p\<rparr>"

section \<open>Example values\<close>

text \<open>Two principals, two well-formed ids, the payload of the specification's example
  and a canister holding one listing and one purchaser, both owned by \<open>alice\<close>.\<close>

definition alice :: Principal where "alice = Principal ''rrkah-fqaaa-aaaaa-aaaaq-cai''"
definition bob :: Principal where "bob = Principal ''2vxsx-fae''"

definition item_id :: string where "item_id = ''123e4567-e89b-42d3-a456-426614174000''"
definition buyer_id :: string where "buyer_id = ''9b2f0c1e-7d4a-4e6b-8f3a-5c1d2e3f4a5b''"

definition dataset_payload :: DataItemPayload where
  "dataset_payload =
     \<lparr>DataItemPayload.title = ''Dataset A'', DataItemPayload.description = ''CSV file'',
      DataItemPayload.price = 100, DataItemPayload.attachmentURL = ''http://x'',
      DataItemPayload.dataFormat = ''csv'', DataItemPayload.status = ''active'',
      DataItemPayload.quality = ''high'', DataItemPayload.rating = 5\<rparr>"

definition dataset_item :: "char DataItem" where
  "dataset_item =
     \<lparr>DataItem.id = item_id, DataItem.title = ''Old title'', DataItem.description = ''Old text'',
      DataItem.price = 7, DataItem.seller = alice, DataItem.attachmentURL = ''http://old'',
      DataItem.dataFormat = ''json'', DataItem.status = ''draft'', DataItem.quality = ''low'',
      DataItem.rating = 1\<rparr>"

definition buyer_payload :: PurchaserPayload where
  "buyer_payload =
     \<lparr>PurchaserPayload.name = ''Bea'', PurchaserPayload.price = 20,
      PurchaserPayload.message = ''hello''\<rparr>"

definition buyer :: Purchaser where
  "buyer =
     \<lparr>Purchaser.id = buyer_id, Purchaser.owner = alice, Purchaser.name = ''Al'',
      Purchaser.price = 3, Purchaser.message = ''hi'', Purchaser.purchasedItem = [item_id]\<rparr>"

definition market :: "char canister" where
  "market = \<lparr>DataItemsStorage = [(item_id, dataset_item)], purchasersStorage = [(buyer_id, buyer)]\<rparr>"

text \<open>Two outcomes of the 32 calls of \<open>Math.random\<close>, and the listing the first one yields.\<close>

definition zero_draws :: "nat \<Rightarrow> 8 word" where
  "zero_draws i = 0"

definition counting_draws :: "nat \<Rightarrow> 8 word" where
  "counting_draws i = of_nat (17 * i + 3)"

definition dataset_listed_by :: "Principal \<Rightarrow> char DataItem" where
  "dataset_listed_by who =
     \<lparr>DataItem.id = ''00000000-0000-4000-8000-000000000000'', DataItem.title = ''Dataset A'',
      DataItem.description = ''CSV file'', DataItem.price = 100, DataItem.seller = who,
      DataItem.attachmentURL = ''http://x'', DataItem.dataFormat = ''csv'',
      DataItem.status = ''active'', DataItem.quality = ''high'', DataItem.rating = 5\<rparr>"

text \<open>Payloads with several violations at once: blank or empty texts and a zero price.\<close>

definition blank_payload :: DataItemPayload where
  "blank_payload =
     \<lparr>DataItemPayload.title = [CHR 0x20, CHR 0x09], DataItemPayload.description = '''',
      DataItemPayload.price = 0, DataItemPayload.attachmentURL = ''http://x'',
      DataItemPayload.dataFormat = ''csv'', DataItemPayload.status = ''active'',
      DataItemPayload.quality = ''high'', DataItemPayload.rating = 5\<rparr>"

definition blank_buyer_payload :: PurchaserPayload where
  "blank_buyer_payload =
     \<lparr>PurchaserPayload.name = ''Bea'', PurchaserPayload.price = 0,
      PurchaserPayload.message = [CHR 0x0A]\<rparr>"

text \<open>A canister with four listings, for the query methods.\<close>

definition listing :: "string \<Rightarrow> string \<Rightarrow> string \<Rightarrow> string \<Rightarrow> char DataItem" where
  "listing ident ttl descr fmt =
     \<lparr>DataItem.id = ident, DataItem.title = ttl, DataItem.description = descr,
      DataItem.price = 10, DataItem.seller = alice, DataItem.attachmentURL = ''http://x'',
      DataItem.dataFormat = fmt, DataItem.status = ''active'', DataItem.quality = ''high'',
      DataItem.rating = 5\<rparr>"

definition listing1 :: "char DataItem" where
  "listing1 = listing ''11111111-1111-4111-8111-111111111111'' ''Weather CSV'' ''Daily temperatures'' ''csv''"
definition listing2 :: "char DataItem" where
  "listing2 = listing ''22222222-2222-4222-8222-222222222222'' ''Stock prices''
                ''Closing prices, with WEATHER notes'' ''JSON''"
definition listing3 :: "char DataItem" where
  "listing3 = listing ''33333333-3333-4333-8333-333333333333'' ''Road maps'' ''City streets'' ''json''"
definition listing4 :: "char DataItem" where
  "listing4 = listing ''44444444-4444-4444-8444-444444444444'' ''weather maps'' ''Rain radar'' ''png''"

definition catalogue :: "char canister" where
  "catalogue =
     \<lparr>DataItemsStorage =
        [(DataItem.id listing1, listing1), (DataItem.id listing2, listing2),
         (DataItem.id listing3, listing3), (DataItem.id listing4, listing4)],
      purchasersStorage = []\<rparr>"

text \<open>
  A part of the Unicode Character Database: the simple lower-case mapping on the code
  points below 256 and on the Greek capitals U+0391 to U+03A9, and the property Cased
  on the Basic Latin and the Greek letters. Code points outside this part are left
  alone and taken as uncased, and no code point is taken as case-ignorable. The texts
  below consist of Basic Latin and Greek letters, which lie in this part and are not
  case-ignorable.
\<close>

definition letters_lower :: "nat \<Rightarrow> nat" where
  "letters_lower n =
     (if (65 \<le> n \<and> n \<le> 90) \<or> (192 \<le> n \<and> n \<le> 222 \<and> n \<noteq> 215)
         \<or> (0x391 \<le> n \<and> n \<le> 0x3A9 \<and> n \<noteq> 0x3A2)
      then n + 32 else n)"

definition letters_cased :: "nat \<Rightarrow> bool" where
  "letters_cased n =
     ((65 \<le> n \<and> n \<le> 90) \<or> (97 \<le> n \<and> n \<le> 122)
      \<or> (0x391 \<le> n \<and> n \<le> 0x3C9 \<and> n \<noteq> 0x3A2))"

definition not_ignorable :: "nat \<Rightarrow> bool" where
  "not_ignorable n = False"

definition letters_tables :: case_tables where
  "letters_tables =
     \<lparr>lower_mapping = letters_lower, is_cased = letters_cased,
      is_case_ignorable = not_ignorable\<rparr>"





section \<open>Payload validation (C5)\<close>

lemma all_dropWhile_iff: "(\<forall>x\<in>set (dropWhile P xs). P x) \<longleftrightarrow> (\<forall>x\<in>set xs. P x)"
  by (induction xs) auto

lemma trim_empty_iff: "trim s = [] \<longleftrightarrow> list_all isWhiteSpace s"
  by (simp add: trim_def list_all_iff all_dropWhile_iff)

lemma isInvalidString_iff: "isInvalidString s \<longleftrightarrow> list_all isWhiteSpace s"
  by (simp add: isInvalidString_def trim_empty_iff)

lemma validateDataItemPayload_eq:
  "validateDataItemPayload p =
     map snd (filter fst
       [(isInvalidString (DataItemPayload.description p),
           ''description='' @ sq @ DataItemPayload.description p @ sq @ '' cannot be empty.''),
        (isInvalidString (DataItemPayload.quality p),
           ''quality='' @ sq @ DataItemPayload.quality p @ sq @ '' cannot be empty.''),
        (isInvalidString (DataItemPayload.title p),
           ''title='' @ sq @ DataItemPayload.title p @ sq @ '' cannot be empty.''),
        (isInvalidString (DataItemPayload.attachmentURL p),
           ''attachmentURL='' @ sq @ DataItemPayload.attachmentURL p @ sq @ '' cannot be empty.''),
        (DataItemPayload.price p = 0,
           ''price='' @ sq @ ''0'' @ sq @ '' must be greater than zero.'')])"
  by (simp add: validateDataItemPayload_def Let_def bigint_toString.simps decimal_digit_def)

lemma validatePurchaserPayload_eq:
  "validatePurchaserPayload p =
     map snd (filter fst
       [(isInvalidString (PurchaserPayload.name p),
           ''name='' @ sq @ PurchaserPayload.name p @ sq @ '' cannot be empty.''),
        (isInvalidString (PurchaserPayload.message p),
           ''message='' @ sq @ PurchaserPayload.message p @ sq @ '' cannot be empty.''),
        (PurchaserPayload.price p = 0,
           ''price='' @ sq @ ''0'' @ sq @ '' must be greater than zero.'')])"
  by (simp add: validatePurchaserPayload_def Let_def bigint_toString.simps decimal_digit_def)

text \<open>
  C5. \<open>validateDataItemPayload\<close> returns the empty sequence exactly when description,
  quality, title and attachmentURL are non-empty after trimming and the price is not
  zero. Its result is the sequence of the messages of all violated fields, in the
  order description, quality, title, attachmentURL, price: one message per violated
  field, none skipped after the first. \<open>validatePurchaserPayload\<close> does the same over
  name, message and price.
\<close>

theorem validate_payloads_collect_all_violations:
  "(validateDataItemPayload p = [] \<longleftrightarrow>
      trim (DataItemPayload.description p) \<noteq> [] \<and> trim (DataItemPayload.quality p) \<noteq> [] \<and>
      trim (DataItemPayload.title p) \<noteq> [] \<and> trim (DataItemPayload.attachmentURL p) \<noteq> [] \<and>
      DataItemPayload.price p \<noteq> 0) \<and>
   validateDataItemPayload p =
     map snd (filter fst
       [(trim (DataItemPayload.description p) = [],
           ''description='' @ sq @ DataItemPayload.description p @ sq @ '' cannot be empty.''),
        (trim (DataItemPayload.quality p) = [],
           ''quality='' @ sq @ DataItemPayload.quality p @ sq @ '' cannot be empty.''),
        (trim (DataItemPayload.title p) = [],
           ''title='' @ sq @ DataItemPayload.title p @ sq @ '' cannot be empty.''),
        (trim (DataItemPayload.attachmentURL p) = [],
           ''attachmentURL='' @ sq @ DataItemPayload.attachmentURL p @ sq @ '' cannot be empty.''),
        (DataItemPayload.price p = 0,
           ''price='' @ sq @ ''0'' @ sq @ '' must be greater than zero.'')]) \<and>
   length (validateDataItemPayload p) =
     length (filter (\<lambda>violated. violated)
       [trim (DataItemPayload.description p) = [], trim (DataItemPayload.quality p) = [],
        trim (DataItemPayload.title p) = [], trim (DataItemPayload.attachmentURL p) = [],
        DataItemPayload.price p = 0]) \<and>
   (validatePurchaserPayload q = [] \<longleftrightarrow>
      trim (PurchaserPayload.name q) \<noteq> [] \<and> trim (PurchaserPayload.message q) \<noteq> [] \<and>
      PurchaserPayload.price q \<noteq> 0) \<and>
   validatePurchaserPayload q =
     map snd (filter fst
       [(trim (PurchaserPayload.name q) = [],
           ''name='' @ sq @ PurchaserPayload.name q @ sq @ '' cannot be empty.''),
        (trim (PurchaserPayload.message q) = [],
           ''message='' @ sq @ PurchaserPayload.message q @ sq @ '' cannot be empty.''),
        (PurchaserPayload.price q = 0,
           ''price='' @ sq @ ''0'' @ sq @ '' must be greater than zero.'')]) \<and>
   length (validatePurchaserPayload q) =
     length (filter (\<lambda>violated. violated)
       [trim (PurchaserPayload.name q) = [], trim (PurchaserPayload.message q) = [],
        PurchaserPayload.price q = 0])"
  unfolding validateDataItemPayload_eq validatePurchaserPayload_eq
  by (simp add: isInvalidString_def)

theorem validate_payloads_collect_all_violations_witness:
  "validateDataItemPayload blank_payload
     = [''description='' @ sq @ sq @ '' cannot be empty.'',
        ''title='' @ sq @ [CHR 0x20, CHR 0x09] @ sq @ '' cannot be empty.'',
        ''price='' @ sq @ ''0'' @ sq @ '' must be greater than zero.''] \<and>
   validatePurchaserPayload blank_buyer_payload
     = [''message='' @ sq @ [CHR 0x0A] @ sq @ '' cannot be empty.'',
        ''price='' @ sq @ ''0'' @ sq @ '' must be greater than zero.''] \<and>
   validateDataItemPayload dataset_payload = [] \<and>
   validatePurchaserPayload buyer_payload = []"
proof -
  have t: "trim [CHR 0x20, CHR 0x09] = []" "trim '''' = []" "trim ''http://x'' \<noteq> []"
    "trim ''high'' \<noteq> []" "trim ''Bea'' \<noteq> []" "trim [CHR 0x0A] = []"
    "trim ''Dataset A'' \<noteq> []" "trim ''CSV file'' \<noteq> []" "trim ''hello'' \<noteq> []"
    by (simp_all add: trim_def isWhiteSpace_def)
  show ?thesis
    using validate_payloads_collect_all_violations[of blank_payload blank_buyer_payload]
      validate_payloads_collect_all_violations[of dataset_payload buyer_payload]
    by (simp add: t blank_payload_def blank_buyer_payload_def dataset_payload_def
        buyer_payload_def)
qed


section \<open>The identifier validator (C4)\<close>

lemma canon_code:
  "(of_char (canonicalize c) :: nat) =
     (let n = (of_char c :: nat) in
      if (97 \<le> n \<and> n \<le> 122) \<or> (224 \<le> n \<and> n \<le> 254 \<and> n \<noteq> 247) then n - 32 else n)"
proof -
  have "(of_char c :: nat) < 256" by simp
  then have "(of_char c - 32 :: nat) < 256" by arith
  then have "(of_char c - 32 :: nat) mod 256 = of_char c - 32" by (rule mod_less)
  then show ?thesis by (simp add: canonicalize_def Let_def)
qed

lemma canon_eq_iff:
  "canonicalize d = canonicalize c \<longleftrightarrow>
     (of_char (canonicalize d) :: nat) = of_char (canonicalize c)"
  by simp

lemma class_matches_hex: "class_matches hex_class c \<longleftrightarrow> isHexDigit c"
  unfolding class_matches_def hex_class_def isHexDigit_def
  apply (simp only: list_ex_Cons_iff list_ex_Nil_iff canon_eq_iff)
  apply (simp only: canon_code[of c])
  apply (simp add: canon_code Let_def)
  apply arith
  done

lemma class_matches_hex_eq: "class_matches hex_class = isHexDigit"
  by (rule ext) (rule class_matches_hex)

lemma canon_hyphen: "canonicalize x = canonicalize (CHR ''-'') \<longleftrightarrow> x = CHR ''-''"
proof -
  have "x = CHR ''-'' \<longleftrightarrow> (of_char x :: nat) = of_char (CHR ''-'')"
    by (simp only: of_char_eq_iff)
  then show ?thesis
    apply (simp only: canon_eq_iff)
    apply (simp add: canon_code Let_def)
    apply arith
    done
qed

text \<open>A repeated class consumes exactly \<open>n\<close> characters, all of them in the class.\<close>

lemma re_match_ClassRep:
  "re_match (ClassRep cls n # r) prev s \<longleftrightarrow>
     (\<exists>g rest. s = g @ rest \<and> length g = n \<and> list_all (class_matches cls) g \<and>
        re_match r (if g = [] then prev else Some (last g)) rest)"
proof (induction n arbitrary: prev s)
  case 0
  then show ?case by simp
next
  case (Suc n)
  show ?case
  proof (cases s)
    case Nil
    then show ?thesis by simp
  next
    case (Cons x xs)
    show ?thesis (is "?L = ?R")
    proof
      assume ?L
      with Cons Suc.IH[of "Some x" xs] obtain g rest where
        g: "class_matches cls x" "xs = g @ rest" "length g = n" "list_all (class_matches cls) g"
           "re_match r (if g = [] then Some x else Some (last g)) rest"
        by auto
      show ?R
        by (rule exI[of _ "x # g"], rule exI[of _ rest]) (use g Cons in auto)
    next
      assume ?R
      then obtain g rest where
        g: "s = g @ rest" "length g = Suc n" "list_all (class_matches cls) g"
           "re_match r (if g = [] then prev else Some (last g)) rest"
        by blast
      then obtain g' where g': "g = x # g'" using Cons by (cases g) auto
      have "re_match (ClassRep cls n # r) (Some x) xs"
        unfolding Suc.IH[of "Some x" xs]
        by (rule exI[of _ g'], rule exI[of _ rest]) (use g g' Cons in \<open>auto split: if_splits\<close>)
      with g g' Cons show ?L by simp
    qed
  qed
qed

lemma isHexDigit_isWordChar: "isHexDigit c \<Longrightarrow> isWordChar c"
  by (auto simp add: isHexDigit_def isWordChar_def Let_def)

lemma not_isWordChar_hyphen: "\<not> isWordChar (CHR ''-'')"
  by (simp add: isWordChar_def)

lemma re_match_Literal_hyphen:
  "re_match (Literal (CHR ''-'') # r) prev s \<longleftrightarrow>
     (\<exists>rest. s = CHR ''-'' # rest \<and> re_match r (Some (CHR ''-'')) rest)"
  by (cases s) (auto simp add: canon_hyphen)

text \<open>
  A group of hexadecimal digits followed by \<open>\b-\<close>: the word boundary always holds
  between a hexadecimal digit and a hyphen, so it constrains nothing.
\<close>

lemma re_match_group:
  assumes "0 < n"
  shows "re_match (ClassRep hex_class n # WordBoundary # Literal (CHR ''-'') # r) prev s \<longleftrightarrow>
     (\<exists>g rest. s = g @ ''-'' @ rest \<and> length g = n \<and> list_all isHexDigit g \<and>
        re_match r (Some (CHR ''-'')) rest)"
  (is "?L = ?R")
proof
  assume ?L
  then obtain g rest where g: "s = g @ rest" "length g = n" "list_all (class_matches hex_class) g"
     "re_match (WordBoundary # Literal (CHR ''-'') # r) (if g = [] then prev else Some (last g)) rest"
    unfolding re_match_ClassRep by blast
  then obtain rest' where r: "rest = CHR ''-'' # rest'" "re_match r (Some (CHR ''-'')) rest'"
    by (auto simp add: re_match_Literal_hyphen)
  show ?R
    by (rule exI[of _ g], rule exI[of _ rest']) (use g r in \<open>simp add: class_matches_hex_eq\<close>)
next
  assume ?R
  then obtain g rest where g: "s = g @ ''-'' @ rest" "length g = n" "list_all isHexDigit g"
        "re_match r (Some (CHR ''-'')) rest" by blast
  from assms g have ne: "g \<noteq> []" by auto
  then have "last g \<in> set g" by simp
  with g have "isWordChar (last g)" by (auto simp add: list_all_iff isHexDigit_isWordChar)
  with g ne have "re_match (WordBoundary # Literal (CHR ''-'') # r)
      (if g = [] then prev else Some (last g)) (''-'' @ rest)"
    by (simp add: isWordCharOpt_def next_char_def not_isWordChar_hyphen canon_hyphen)
  then show ?L unfolding re_match_ClassRep
    by (intro exI[of _ g] exI[of _ "''-'' @ rest"]) (use g in \<open>simp add: class_matches_hex_eq\<close>)
qed

lemma re_match_last_group:
  "re_match [ClassRep hex_class n, Dollar] prev s \<longleftrightarrow> (length s = n \<and> list_all isHexDigit s)"
  unfolding re_match_ClassRep by (auto simp add: class_matches_hex_eq)

text \<open>With \<open>^\<close> in front, only the start position 0 can match.\<close>

lemma regex_test_Caret_Some: "\<not> regex_test (Caret # r) (Some x) s"
  by (induction s arbitrary: x) auto

lemma regex_test_Caret: "regex_test (Caret # r) None s = re_match r None s"
  by (cases s) (auto simp add: regex_test_Caret_Some)

lemma isValidUuid_iff_pattern: "isValidUuid s \<longleftrightarrow> uuid_pattern s"
  unfolding isValidUuid_def regexExp_def regex_test_Caret uuid_pattern_def
  apply (simp only: re_match_group re_match_last_group zero_less_numeral)
  apply simp
  apply (rule iffI; clarify)
   apply blast
  apply blast
  done

lemma malformed_example: "\<not> isValidUuid ''not-a-uuid''"
  by code_simp

text \<open>
  C4, as amended. \<open>isValidUuid\<close> is true exactly for the strings of the 8-4-4-4-12
  hexadecimal pattern, in either case. For every other string \<open>getDataItem\<close> returns,
  whatever the store holds, the malformed-id error and never the not-found error.
  The error is the plain text \<open>Id="<id>" is not in the valid uuid format.\<close>: the
  method is declared \<open>Result(DataItem, text)\<close>, so its errors carry no
  \<open>InvalidPayload\<close> or \<open>NotFound\<close> tag.
\<close>

theorem isValidUuid_pattern_and_getDataItem_malformed:
  "(isValidUuid ident \<longleftrightarrow> uuid_pattern ident) \<and>
   (\<not> uuid_pattern ident \<longrightarrow>
      getDataItem st ident
        = Err (''Id='' @ dq @ ident @ dq @ '' is not in the valid uuid format.'') \<and>
      getDataItem st ident \<noteq> Err ''Data Item not found'')"
  by (simp add: isValidUuid_iff_pattern getDataItem_def)

theorem isValidUuid_pattern_and_getDataItem_malformed_witness:
  "\<not> uuid_pattern ''not-a-uuid'' \<and>
   getDataItem init_canister ''not-a-uuid''
     = Err (''Id='' @ dq @ ''not-a-uuid'' @ dq @ '' is not in the valid uuid format.'') \<and>
   getDataItem init_canister ''not-a-uuid'' \<noteq> Err ''Data Item not found'' \<and>
   uuid_pattern ''123e4567-e89b-12d3-A456-426614174000''"
proof -
  have valid: "isValidUuid ''123e4567-e89b-12d3-A456-426614174000''"
    by code_simp
  show ?thesis
    using isValidUuid_pattern_and_getDataItem_malformed[of "''not-a-uuid''" init_canister]
      isValidUuid_pattern_and_getDataItem_malformed
        [of "''123e4567-e89b-12d3-A456-426614174000''" init_canister]
      malformed_example valid
    by simp
qed

text \<open>
  The claim as stated fails at the id \<open>not-a-uuid\<close>: \<open>getDataItem\<close> answers with
  untagged text, where \<open>deleteDataItem\<close> wraps the same text in \<open>InvalidPayload\<close>.
\<close>

theorem getDataItem_malformed_id_reply_is_plain_text:
  "getDataItem init_canister ''not-a-uuid''
     = Err (''Id='' @ dq @ ''not-a-uuid'' @ dq @ '' is not in the valid uuid format.'') \<and>
   fst (deleteDataItem (Principal ''aaaaa-aa'') ''not-a-uuid'' init_canister)
     = Err (InvalidPayload
             (''Id='' @ dq @ ''not-a-uuid'' @ dq @ '' is not in the valid uuid format.''))"
  using malformed_example by (simp add: getDataItem_def deleteDataItem_def)

section \<open>The record store\<close>

lemma btree_get_insert:
  "btree_get (btree_insert k v m) k' = (if k' = k then Some v else btree_get m k')"
  by (induction m) (auto simp add: btree_get_def)

lemma btree_get_remove:
  "btree_get (btree_remove k m) k' = (if k' = k then None else btree_get m k')"
  by (induction m) (auto simp add: btree_get_def btree_remove_def)

lemma btree_get_SomeD: "btree_get m k = Some v \<Longrightarrow> (k, v) \<in> set m"
  by (simp add: btree_get_def map_of_SomeD)

lemma list_all_btree_insert:
  "list_all P m \<Longrightarrow> P (k, v) \<Longrightarrow> list_all P (btree_insert k v m)"
  by (induction m) auto

lemma list_all_btree_remove: "list_all P m \<Longrightarrow> list_all P (btree_remove k m)"
  by (simp add: btree_remove_def list_all_iff)

text \<open>
  Insertion and removal keep the keys strictly ascending: a store built from the empty
  one lists every key once, in key order.
\<close>

lemma keys_btree_insert:
  "set (map fst (btree_insert k v m)) = insert k (set (map fst m))"
  by (induction m) force+

lemma sorted_keys_btree_insert:
  "sorted_wrt (<) (map fst m) \<Longrightarrow> sorted_wrt (<) (map fst (btree_insert k v m))"
proof (induction m)
  case Nil
  then show ?case by simp
next
  case (Cons kv m)
  obtain k' v' where kv: "kv = (k', v')" by (cases kv)
  from Cons.prems kv have below: "\<forall>x\<in>set (map fst m). k' < x" and rest: "sorted_wrt (<) (map fst m)"
    by auto
  show ?case
  proof (cases "k = k'")
    case True
    with Cons.prems kv show ?thesis by simp
  next
    case False
    show ?thesis
    proof (cases "k < k'")
      case True
      with below have "\<forall>x\<in>set (map fst m). k < x" by (auto intro: less_trans)
      with True False Cons.prems kv show ?thesis by auto
    next
      case g: False
      with False have "k' < k" by simp
      with below have "\<forall>x\<in>set (map fst (btree_insert k v m)). k' < x"
        unfolding keys_btree_insert by simp
      with False g kv Cons.IH[OF rest] show ?thesis by auto
    qed
  qed
qed

lemma sorted_keys_btree_remove:
  "sorted_wrt (<) (map fst m) \<Longrightarrow> sorted_wrt (<) (map fst (btree_remove k m))"
  by (induction m) (auto simp add: btree_remove_def)

lemma toString_neq_iff: "toString a \<noteq> toString b \<longleftrightarrow> a \<noteq> b"
  by (cases a; cases b) simp

section \<open>Facts about the example values\<close>

lemma item_id_valid: "isValidUuid item_id" by code_simp
lemma buyer_id_valid: "isValidUuid buyer_id" by code_simp
lemma dataset_payload_valid: "validateDataItemPayload dataset_payload = []" by code_simp
lemma buyer_payload_valid: "validatePurchaserPayload buyer_payload = []" by code_simp

lemma uuidv4_zero_draws: "uuidv4 zero_draws = ''00000000-0000-4000-8000-000000000000''"
  by (simp add: uuidv4_def getRandomValues_def zero_draws_def upt_rec set_version_bits_def
      unsafeStringify_def byteToHex_def hex_digit_def)

lemma uuidv4_counting_draws: "uuidv4 counting_draws = ''03142536-4758-497a-8b9c-adbecfe0f102''"
  by (simp add: uuidv4_def getRandomValues_def counting_draws_def upt_rec set_version_bits_def
      unsafeStringify_def byteToHex_def hex_digit_def)

section \<open>Ownership checks (C1)\<close>

text \<open>
  C1. When the record stored under a well-formed id belongs to someone other than the
  caller, \<open>updateDataItem\<close> (given a valid payload) returns \<open>AuthenticationFailed\<close> and
  the canister after the call equals the canister before it. The same holds for
  \<open>updatePurchaser\<close>, \<open>deleteDataItem\<close>, \<open>deletePurchaser\<close> and \<open>addPurchasedItem\<close> (both
  of its ids well-formed), with respect to the stored \<open>owner\<close> or \<open>seller\<close>.
\<close>

theorem non_owner_is_rejected_and_store_unchanged:
  "(isValidUuid ident \<and> validateDataItemPayload dp = [] \<and>
    btree_get (DataItemsStorage st) ident = Some d \<and> DataItem.seller d \<noteq> caller \<longrightarrow>
      updateDataItem caller ident dp st
        = (Err (AuthenticationFailed ''Caller is not the seller of the item.''), st)) \<and>
   (isValidUuid ident \<and> validatePurchaserPayload pp = [] \<and>
    btree_get (purchasersStorage st) ident = Some p \<and> Purchaser.owner p \<noteq> caller \<longrightarrow>
      updatePurchaser caller ident pp st
        = (Err (AuthenticationFailed ''Caller is not the purchaser.''), st)) \<and>
   (isValidUuid ident \<and>
    btree_get (DataItemsStorage st) ident = Some d \<and> DataItem.seller d \<noteq> caller \<longrightarrow>
      deleteDataItem caller ident st
        = (Err (AuthenticationFailed ''Caller is not the seller of the item.''), st)) \<and>
   (isValidUuid ident \<and>
    btree_get (purchasersStorage st) ident = Some p \<and> Purchaser.owner p \<noteq> caller \<longrightarrow>
      deletePurchaser caller ident st
        = (Err (AuthenticationFailed ''Caller is not the purchaser.''), st)) \<and>
   (isValidUuid ident \<and> isValidUuid itemId \<and>
    btree_get (purchasersStorage st) ident = Some p \<and> Purchaser.owner p \<noteq> caller \<longrightarrow>
      addPurchasedItem caller ident itemId st
        = (Err (AuthenticationFailed ''Caller is not the purchaser.''), st))"
  by (simp add: updateDataItem_def updatePurchaser_def deleteDataItem_def deletePurchaser_def
      addPurchasedItem_def toString_neq_iff)

theorem non_owner_is_rejected_and_store_unchanged_witness:
  "updateDataItem bob item_id dataset_payload market
     = (Err (AuthenticationFailed ''Caller is not the seller of the item.''), market) \<and>
   updatePurchaser bob buyer_id buyer_payload market
     = (Err (AuthenticationFailed ''Caller is not the purchaser.''), market) \<and>
   deleteDataItem bob item_id market
     = (Err (AuthenticationFailed ''Caller is not the seller of the item.''), market) \<and>
   deletePurchaser bob buyer_id market
     = (Err (AuthenticationFailed ''Caller is not the purchaser.''), market) \<and>
   addPurchasedItem bob buyer_id item_id market
     = (Err (AuthenticationFailed ''Caller is not the purchaser.''), market)"
proof -
  have d: "btree_get (DataItemsStorage market) item_id = Some dataset_item"
    by (simp add: market_def btree_get_def)
  have p: "btree_get (purchasersStorage market) buyer_id = Some buyer"
    by (simp add: market_def btree_get_def)
  have s: "DataItem.seller dataset_item \<noteq> bob" "Purchaser.owner buyer \<noteq> bob"
    by (simp_all add: dataset_item_def buyer_def alice_def bob_def)
  show ?thesis
    using non_owner_is_rejected_and_store_unchanged
      [of item_id dataset_payload market dataset_item bob buyer_payload buyer item_id]
    non_owner_is_rejected_and_store_unchanged
      [of buyer_id dataset_payload market dataset_item bob buyer_payload buyer item_id]
      item_id_valid buyer_id_valid dataset_payload_valid buyer_payload_valid d p s
    by simp
qed


section \<open>Updates (C2)\<close>

lemma DataItem_spread_eq:
  "d\<lparr>DataItem.title := DataItemPayload.title dp,
     DataItem.description := DataItemPayload.description dp,
     DataItem.price := DataItemPayload.price dp,
     DataItem.attachmentURL := DataItemPayload.attachmentURL dp,
     DataItem.dataFormat := DataItemPayload.dataFormat dp,
     DataItem.status := DataItemPayload.status dp,
     DataItem.quality := DataItemPayload.quality dp,
     DataItem.rating := DataItemPayload.rating dp\<rparr> = DataItem_with_payload d dp"
  by (cases d) (simp add: DataItem_with_payload_def)

lemma Purchaser_spread_eq:
  "p\<lparr>Purchaser.name := PurchaserPayload.name pp,
     Purchaser.price := PurchaserPayload.price pp,
     Purchaser.message := PurchaserPayload.message pp\<rparr> = Purchaser_with_payload p pp"
  by (cases p) (simp add: Purchaser_with_payload_def)

lemma updateDataItem_Ok_iff:
  "updateDataItem caller ident dp st = (Ok r, st') \<longleftrightarrow>
     isValidUuid ident \<and> validateDataItemPayload dp = [] \<and>
     (\<exists>d. btree_get (DataItemsStorage st) ident = Some d \<and> DataItem.seller d = caller \<and>
          r = DataItem_with_payload d dp \<and>
          st' = st\<lparr>DataItemsStorage := btree_insert ident r (DataItemsStorage st)\<rparr>)"
  unfolding updateDataItem_def DataItem_spread_eq
  by (auto simp add: toString_neq_iff Let_def split: option.splits)

lemma updatePurchaser_Ok_iff:
  "updatePurchaser caller ident pp st = (Ok r, st') \<longleftrightarrow>
     isValidUuid ident \<and> validatePurchaserPayload pp = [] \<and>
     (\<exists>p. btree_get (purchasersStorage st) ident = Some p \<and> Purchaser.owner p = caller \<and>
          r = Purchaser_with_payload p pp \<and>
          st' = st\<lparr>purchasersStorage := btree_insert ident r (purchasersStorage st)\<rparr>)"
  unfolding updatePurchaser_def Purchaser_spread_eq
  by (auto simp add: toString_neq_iff Let_def split: option.splits)

text \<open>
  C2. For a stored record, a valid payload and a caller who is its seller,
  \<open>updateDataItem\<close> succeeds, and it returns and stores under the same key the record
  whose payload fields come from the payload and whose \<open>id\<close> and \<open>seller\<close> are those of
  the record stored before. Conversely every successful \<open>updateDataItem\<close> is of this
  form, so no update changes \<open>id\<close> or \<open>seller\<close>. \<open>updatePurchaser\<close> behaves the same
  way with respect to \<open>id\<close> and \<open>owner\<close>.
\<close>

theorem update_keeps_id_and_owner:
  "(isValidUuid ident \<and> validateDataItemPayload dp = [] \<and>
    btree_get (DataItemsStorage st) ident = Some d \<and> DataItem.seller d = caller \<longrightarrow>
      fst (updateDataItem caller ident dp st) = Ok (DataItem_with_payload d dp) \<and>
      btree_get (DataItemsStorage (snd (updateDataItem caller ident dp st))) ident
        = Some (DataItem_with_payload d dp) \<and>
      purchasersStorage (snd (updateDataItem caller ident dp st)) = purchasersStorage st) \<and>
   (updateDataItem caller ident dp st = (Ok r, st') \<longrightarrow>
      (\<exists>d. btree_get (DataItemsStorage st) ident = Some d \<and> r = DataItem_with_payload d dp \<and>
           DataItem.id r = DataItem.id d \<and> DataItem.seller r = DataItem.seller d \<and>
           btree_get (DataItemsStorage st') ident = Some r)) \<and>
   (isValidUuid ident \<and> validatePurchaserPayload pp = [] \<and>
    btree_get (purchasersStorage st) ident = Some p \<and> Purchaser.owner p = caller \<longrightarrow>
      fst (updatePurchaser caller ident pp st) = Ok (Purchaser_with_payload p pp) \<and>
      btree_get (purchasersStorage (snd (updatePurchaser caller ident pp st))) ident
        = Some (Purchaser_with_payload p pp) \<and>
      DataItemsStorage (snd (updatePurchaser caller ident pp st)) = DataItemsStorage st) \<and>
   (updatePurchaser caller ident pp st = (Ok q, st'') \<longrightarrow>
      (\<exists>p. btree_get (purchasersStorage st) ident = Some p \<and> q = Purchaser_with_payload p pp \<and>
           Purchaser.id q = Purchaser.id p \<and> Purchaser.owner q = Purchaser.owner p \<and>
           btree_get (purchasersStorage st'') ident = Some q))"
proof (intro conjI impI)
  assume h: "isValidUuid ident \<and> validateDataItemPayload dp = [] \<and>
    btree_get (DataItemsStorage st) ident = Some d \<and> DataItem.seller d = caller"
  then have "updateDataItem caller ident dp st
      = (Ok (DataItem_with_payload d dp),
         st\<lparr>DataItemsStorage := btree_insert ident (DataItem_with_payload d dp) (DataItemsStorage st)\<rparr>)"
    by (simp add: updateDataItem_Ok_iff)
  then show "fst (updateDataItem caller ident dp st) = Ok (DataItem_with_payload d dp)"
    "btree_get (DataItemsStorage (snd (updateDataItem caller ident dp st))) ident
        = Some (DataItem_with_payload d dp)"
    "purchasersStorage (snd (updateDataItem caller ident dp st)) = purchasersStorage st"
    by (simp_all add: btree_get_insert)
next
  assume "updateDataItem caller ident dp st = (Ok r, st')"
  then show "\<exists>d. btree_get (DataItemsStorage st) ident = Some d \<and> r = DataItem_with_payload d dp \<and>
           DataItem.id r = DataItem.id d \<and> DataItem.seller r = DataItem.seller d \<and>
           btree_get (DataItemsStorage st') ident = Some r"
    by (auto simp add: updateDataItem_Ok_iff btree_get_insert DataItem_with_payload_def)
next
  assume h: "isValidUuid ident \<and> validatePurchaserPayload pp = [] \<and>
    btree_get (purchasersStorage st) ident = Some p \<and> Purchaser.owner p = caller"
  then have "updatePurchaser caller ident pp st
      = (Ok (Purchaser_with_payload p pp),
         st\<lparr>purchasersStorage := btree_insert ident (Purchaser_with_payload p pp) (purchasersStorage st)\<rparr>)"
    by (simp add: updatePurchaser_Ok_iff)
  then show "fst (updatePurchaser caller ident pp st) = Ok (Purchaser_with_payload p pp)"
    "btree_get (purchasersStorage (snd (updatePurchaser caller ident pp st))) ident
        = Some (Purchaser_with_payload p pp)"
    "DataItemsStorage (snd (updatePurchaser caller ident pp st)) = DataItemsStorage st"
    by (simp_all add: btree_get_insert)
next
  assume "updatePurchaser caller ident pp st = (Ok q, st'')"
  then show "\<exists>p. btree_get (purchasersStorage st) ident = Some p \<and> q = Purchaser_with_payload p pp \<and>
           Purchaser.id q = Purchaser.id p \<and> Purchaser.owner q = Purchaser.owner p \<and>
           btree_get (purchasersStorage st'') ident = Some q"
    by (auto simp add: updatePurchaser_Ok_iff btree_get_insert Purchaser_with_payload_def)
qed


theorem update_keeps_id_and_owner_witness:
  "fst (updateDataItem alice item_id dataset_payload market)
     = Ok \<lparr>DataItem.id = item_id, DataItem.title = ''Dataset A'',
           DataItem.description = ''CSV file'', DataItem.price = 100, DataItem.seller = alice,
           DataItem.attachmentURL = ''http://x'', DataItem.dataFormat = ''csv'',
           DataItem.status = ''active'', DataItem.quality = ''high'', DataItem.rating = 5\<rparr> \<and>
   btree_get (DataItemsStorage (snd (updateDataItem alice item_id dataset_payload market))) item_id
     = Some (DataItem_with_payload dataset_item dataset_payload) \<and>
   fst (updatePurchaser alice buyer_id buyer_payload market)
     = Ok \<lparr>Purchaser.id = buyer_id, Purchaser.owner = alice, Purchaser.name = ''Bea'',
           Purchaser.price = 20, Purchaser.message = ''hello'',
           Purchaser.purchasedItem = [item_id]\<rparr> \<and>
   btree_get (purchasersStorage (snd (updatePurchaser alice buyer_id buyer_payload market))) buyer_id
     = Some (Purchaser_with_payload buyer buyer_payload) \<and>
   (\<exists>d. btree_get (DataItemsStorage market) item_id = Some d \<and>
        DataItem.id (DataItem_with_payload dataset_item dataset_payload) = DataItem.id d \<and>
        DataItem.seller (DataItem_with_payload dataset_item dataset_payload) = DataItem.seller d) \<and>
   (\<exists>p. btree_get (purchasersStorage market) buyer_id = Some p \<and>
        Purchaser.id (Purchaser_with_payload buyer buyer_payload) = Purchaser.id p \<and>
        Purchaser.owner (Purchaser_with_payload buyer buyer_payload) = Purchaser.owner p)"
proof -
  have d: "btree_get (DataItemsStorage market) item_id = Some dataset_item"
    by (simp add: market_def btree_get_def)
  have p: "btree_get (purchasersStorage market) buyer_id = Some buyer"
    by (simp add: market_def btree_get_def)
  have s: "DataItem.seller dataset_item = alice" "Purchaser.owner buyer = alice"
    by (simp_all add: dataset_item_def buyer_def)
  have v: "DataItem_with_payload dataset_item dataset_payload
     = \<lparr>DataItem.id = item_id, DataItem.title = ''Dataset A'',
           DataItem.description = ''CSV file'', DataItem.price = 100, DataItem.seller = alice,
           DataItem.attachmentURL = ''http://x'', DataItem.dataFormat = ''csv'',
           DataItem.status = ''active'', DataItem.quality = ''high'', DataItem.rating = 5\<rparr>"
    "Purchaser_with_payload buyer buyer_payload
     = \<lparr>Purchaser.id = buyer_id, Purchaser.owner = alice, Purchaser.name = ''Bea'',
           Purchaser.price = 20, Purchaser.message = ''hello'',
           Purchaser.purchasedItem = [item_id]\<rparr>"
    by (simp_all add: DataItem_with_payload_def Purchaser_with_payload_def dataset_item_def
        dataset_payload_def buyer_def buyer_payload_def)
  note a = update_keeps_id_and_owner
      [of item_id dataset_payload market dataset_item alice
          "DataItem_with_payload dataset_item dataset_payload"
          "snd (updateDataItem alice item_id dataset_payload market)"
          buyer_payload buyer
          "Purchaser_with_payload buyer buyer_payload"
          "snd (updatePurchaser alice item_id buyer_payload market)"]
  note b = update_keeps_id_and_owner
      [of buyer_id dataset_payload market dataset_item alice
          "DataItem_with_payload dataset_item dataset_payload"
          "snd (updateDataItem alice buyer_id dataset_payload market)"
          buyer_payload buyer
          "Purchaser_with_payload buyer buyer_payload"
          "snd (updatePurchaser alice buyer_id buyer_payload market)"]
  from a d s item_id_valid dataset_payload_valid
  have 1: "fst (updateDataItem alice item_id dataset_payload market)
            = Ok (DataItem_with_payload dataset_item dataset_payload)"
     "btree_get (DataItemsStorage (snd (updateDataItem alice item_id dataset_payload market))) item_id
       = Some (DataItem_with_payload dataset_item dataset_payload)"
    by simp_all
  from b p s buyer_id_valid buyer_payload_valid
  have 2: "fst (updatePurchaser alice buyer_id buyer_payload market)
            = Ok (Purchaser_with_payload buyer buyer_payload)"
     "btree_get (purchasersStorage (snd (updatePurchaser alice buyer_id buyer_payload market))) buyer_id
       = Some (Purchaser_with_payload buyer buyer_payload)"
    by simp_all
  from 1 have 3: "updateDataItem alice item_id dataset_payload market
      = (Ok (DataItem_with_payload dataset_item dataset_payload),
         snd (updateDataItem alice item_id dataset_payload market))"
    by (simp add: prod_eq_iff)
  from 2 have 4: "updatePurchaser alice buyer_id buyer_payload market
      = (Ok (Purchaser_with_payload buyer buyer_payload),
         snd (updatePurchaser alice buyer_id buyer_payload market))"
    by (simp add: prod_eq_iff)
  from a 3 have 5: "\<exists>d. btree_get (DataItemsStorage market) item_id = Some d \<and>
        DataItem.id (DataItem_with_payload dataset_item dataset_payload) = DataItem.id d \<and>
        DataItem.seller (DataItem_with_payload dataset_item dataset_payload) = DataItem.seller d"
    by blast
  from b 4 have 6: "\<exists>p. btree_get (purchasersStorage market) buyer_id = Some p \<and>
        Purchaser.id (Purchaser_with_payload buyer buyer_payload) = Purchaser.id p \<and>
        Purchaser.owner (Purchaser_with_payload buyer buyer_payload) = Purchaser.owner p"
    by blast
  from 1 2 5 6 show ?thesis unfolding v by blast
qed

section \<open>Deleting an absent listing (C6)\<close>

text \<open>
  C6, as amended. For every well-formed id not present in the DataItems store,
  \<open>deleteDataItem\<close> returns \<open>NotFound\<close> and leaves the canister unchanged. An id that is
  not well-formed is rejected before the store is read: the result is
  \<open>InvalidPayload\<close>, again with the canister unchanged.
\<close>

theorem deleteDataItem_absent_or_malformed:
  "(isValidUuid ident \<and> btree_get (DataItemsStorage st) ident = None \<longrightarrow>
      deleteDataItem caller ident st
        = (Err (NotFound (''cannot delete the DataItem: DataItem with id='' @ ident
                          @ '' not found'')), st)) \<and>
   (\<not> isValidUuid ident \<longrightarrow>
      deleteDataItem caller ident st
        = (Err (InvalidPayload
                 (''Id='' @ dq @ ident @ dq @ '' is not in the valid uuid format.'')), st))"
  by (simp add: deleteDataItem_def)

theorem deleteDataItem_absent_or_malformed_witness:
  "deleteDataItem alice buyer_id market
     = (Err (NotFound (''cannot delete the DataItem: DataItem with id='' @ buyer_id
                       @ '' not found'')), market) \<and>
   deleteDataItem alice ''not-a-uuid'' market
     = (Err (InvalidPayload
              (''Id='' @ dq @ ''not-a-uuid'' @ dq @ '' is not in the valid uuid format.'')), market)"
proof -
  have "btree_get (DataItemsStorage market) buyer_id = None"
    by (simp add: market_def btree_get_def item_id_def buyer_id_def)
  moreover have "\<not> isValidUuid ''not-a-uuid''" by code_simp
  ultimately show ?thesis
    using deleteDataItem_absent_or_malformed[of buyer_id market alice]
      deleteDataItem_absent_or_malformed[of "''not-a-uuid''" market alice] buyer_id_valid
    by simp
qed

text \<open>
  The claim as stated, for every id not present, fails at the id \<open>not-a-uuid\<close>: it is in
  no store, and the result is \<open>InvalidPayload\<close>.
\<close>

theorem deleteDataItem_absent_malformed_id_is_InvalidPayload:
  "btree_get (DataItemsStorage init_canister) ''not-a-uuid'' = None \<and>
   fst (deleteDataItem alice ''not-a-uuid'' init_canister)
     = Err (InvalidPayload
             (''Id='' @ dq @ ''not-a-uuid'' @ dq @ '' is not in the valid uuid format.''))"
proof -
  have "\<not> isValidUuid ''not-a-uuid''" by code_simp
  then show ?thesis by (simp add: deleteDataItem_def init_canister_def btree_get_def)
qed


section \<open>Recording a purchase (C7)\<close>

text \<open>
  C7. For a stored purchaser owned by the caller and well-formed ids,
  \<open>addPurchasedItem\<close> succeeds and stores under the purchaser's key the same record
  with \<open>itemId\<close> appended at the end of \<open>purchasedItem\<close>: the earlier entries stay in
  place and every other field is unchanged. Whether \<open>itemId\<close> already occurs in the
  sequence, or names a stored DataItem, plays no role; the DataItems store is neither
  read nor written, and no other purchaser changes.
\<close>

theorem addPurchasedItem_appends_itemId:
  "isValidUuid purchaserId \<and> isValidUuid itemId \<and>
   btree_get (purchasersStorage st) purchaserId = Some p \<and> Purchaser.owner p = caller \<longrightarrow>
     fst (addPurchasedItem caller purchaserId itemId st) = Ok ''Item added to Purchaser'' \<and>
     btree_get (purchasersStorage (snd (addPurchasedItem caller purchaserId itemId st))) purchaserId
       = Some (p\<lparr>Purchaser.purchasedItem := Purchaser.purchasedItem p @ [itemId]\<rparr>) \<and>
     (\<forall>k. k \<noteq> purchaserId \<longrightarrow>
        btree_get (purchasersStorage (snd (addPurchasedItem caller purchaserId itemId st))) k
          = btree_get (purchasersStorage st) k) \<and>
     DataItemsStorage (snd (addPurchasedItem caller purchaserId itemId st)) = DataItemsStorage st"
  by (simp add: addPurchasedItem_def btree_get_insert)

theorem addPurchasedItem_appends_itemId_witness:
  "fst (addPurchasedItem alice buyer_id item_id market) = Ok ''Item added to Purchaser'' \<and>
   btree_get (purchasersStorage (snd (addPurchasedItem alice buyer_id item_id market))) buyer_id
     = Some (buyer\<lparr>Purchaser.purchasedItem := [item_id, item_id]\<rparr>) \<and>
   btree_get (DataItemsStorage market) buyer_id = None \<and>
   btree_get (purchasersStorage (snd (addPurchasedItem alice buyer_id buyer_id market))) buyer_id
     = Some (buyer\<lparr>Purchaser.purchasedItem := [item_id, buyer_id]\<rparr>)"
proof -
  have p: "btree_get (purchasersStorage market) buyer_id = Some buyer"
    by (simp add: market_def btree_get_def)
  have o: "Purchaser.owner buyer = alice" "Purchaser.purchasedItem buyer = [item_id]"
    by (simp_all add: buyer_def)
  have n: "btree_get (DataItemsStorage market) buyer_id = None"
    by (simp add: market_def btree_get_def item_id_def buyer_id_def)
  show ?thesis
    using addPurchasedItem_appends_itemId[of buyer_id item_id market buyer alice]
      addPurchasedItem_appends_itemId[of buyer_id buyer_id market buyer alice]
      p o n item_id_valid buyer_id_valid
    by simp
qed

section \<open>Records sit under their own id (C10)\<close>

lemma ids_match_DataItem:
  assumes "ids_match_keys st" and "btree_get (DataItemsStorage st) k = Some d"
  shows "DataItem.id d = k"
proof -
  from assms(2) have "(k, d) \<in> set (DataItemsStorage st)" by (rule btree_get_SomeD)
  with assms(1) show ?thesis by (auto simp add: ids_match_keys_def list_all_iff)
qed

lemma ids_match_Purchaser:
  assumes "ids_match_keys st" and "btree_get (purchasersStorage st) k = Some p"
  shows "Purchaser.id p = k"
proof -
  from assms(2) have "(k, p) \<in> set (purchasersStorage st)" by (rule btree_get_SomeD)
  with assms(1) show ?thesis by (auto simp add: ids_match_keys_def list_all_iff)
qed

lemma ids_match_addDataItem:
  "ids_match_keys st \<Longrightarrow> ids_match_keys (snd (addDataItem caller draws dp st))"
  by (simp add: addDataItem_def Let_def ids_match_keys_def list_all_btree_insert)

lemma ids_match_addPurchaser:
  "ids_match_keys st \<Longrightarrow> ids_match_keys (snd (addPurchaser caller draws pp st))"
  by (simp add: addPurchaser_def Let_def ids_match_keys_def list_all_btree_insert)

lemma ids_match_updateDataItem:
  assumes "ids_match_keys st"
  shows "ids_match_keys (snd (updateDataItem caller ident dp st))"
proof (cases "btree_get (DataItemsStorage st) ident")
  case None
  with assms show ?thesis by (simp add: updateDataItem_def Let_def)
next
  case (Some d)
  with assms have "DataItem.id d = ident" by (rule ids_match_DataItem)
  with assms Some show ?thesis
    by (simp add: updateDataItem_def Let_def ids_match_keys_def list_all_btree_insert)
qed

lemma ids_match_updatePurchaser:
  assumes "ids_match_keys st"
  shows "ids_match_keys (snd (updatePurchaser caller ident pp st))"
proof (cases "btree_get (purchasersStorage st) ident")
  case None
  with assms show ?thesis by (simp add: updatePurchaser_def Let_def)
next
  case (Some p)
  with assms have "Purchaser.id p = ident" by (rule ids_match_Purchaser)
  with assms Some show ?thesis
    by (simp add: updatePurchaser_def Let_def ids_match_keys_def list_all_btree_insert)
qed

lemma ids_match_addPurchasedItem:
  assumes "ids_match_keys st"
  shows "ids_match_keys (snd (addPurchasedItem caller ident itemId st))"
proof (cases "btree_get (purchasersStorage st) ident")
  case None
  with assms show ?thesis by (simp add: addPurchasedItem_def Let_def)
next
  case (Some p)
  with assms have "Purchaser.id p = ident" by (rule ids_match_Purchaser)
  with assms Some show ?thesis
    by (simp add: addPurchasedItem_def Let_def ids_match_keys_def list_all_btree_insert)
qed

lemma ids_match_deleteDataItem:
  "ids_match_keys st \<Longrightarrow> ids_match_keys (snd (deleteDataItem caller ident st))"
  by (simp add: deleteDataItem_def ids_match_keys_def list_all_btree_remove split: option.splits)

lemma ids_match_deletePurchaser:
  "ids_match_keys st \<Longrightarrow> ids_match_keys (snd (deletePurchaser caller ident st))"
  by (simp add: deletePurchaser_def ids_match_keys_def list_all_btree_remove split: option.splits)

lemma deleteDataItem_returns_key:
  "ids_match_keys st \<Longrightarrow> fst (deleteDataItem caller ident st) = Ok r \<Longrightarrow> r = ident"
  by (auto simp add: deleteDataItem_def split: if_splits option.splits dest: ids_match_DataItem)

lemma deletePurchaser_returns_key:
  "ids_match_keys st \<Longrightarrow> fst (deletePurchaser caller ident st) = Ok r \<Longrightarrow> r = ident"
  by (auto simp add: deletePurchaser_def split: if_splits option.splits dest: ids_match_Purchaser)

text \<open>
  C10. In the initial canister every stored record's \<open>id\<close> equals its key, and each of
  \<open>addDataItem\<close>, \<open>addPurchaser\<close>, \<open>updateDataItem\<close>, \<open>updatePurchaser\<close>,
  \<open>addPurchasedItem\<close>, \<open>deleteDataItem\<close> and \<open>deletePurchaser\<close> preserves this, whatever
  its arguments and outcome. Where it holds, a successful \<open>deleteDataItem\<close> or
  \<open>deletePurchaser\<close> returns exactly the id it was called with.
\<close>

theorem ids_match_keys_is_invariant:
  "ids_match_keys init_canister \<and>
   (ids_match_keys st \<longrightarrow>
      ids_match_keys (snd (addDataItem caller draws dp st)) \<and>
      ids_match_keys (snd (addPurchaser caller draws pp st)) \<and>
      ids_match_keys (snd (updateDataItem caller ident dp st)) \<and>
      ids_match_keys (snd (updatePurchaser caller ident pp st)) \<and>
      ids_match_keys (snd (addPurchasedItem caller ident itemId st)) \<and>
      ids_match_keys (snd (deleteDataItem caller ident st)) \<and>
      ids_match_keys (snd (deletePurchaser caller ident st)) \<and>
      (fst (deleteDataItem caller ident st) = Ok r \<longrightarrow> r = ident) \<and>
      (fst (deletePurchaser caller ident st) = Ok q \<longrightarrow> q = ident))"
proof (intro conjI impI)
  show "ids_match_keys init_canister"
    by (simp add: ids_match_keys_def init_canister_def)
next
  assume h: "ids_match_keys st"
  show "ids_match_keys (snd (addDataItem caller draws dp st))"
    using h by (rule ids_match_addDataItem)
  show "ids_match_keys (snd (addPurchaser caller draws pp st))"
    using h by (rule ids_match_addPurchaser)
  show "ids_match_keys (snd (updateDataItem caller ident dp st))"
    using h by (rule ids_match_updateDataItem)
  show "ids_match_keys (snd (updatePurchaser caller ident pp st))"
    using h by (rule ids_match_updatePurchaser)
  show "ids_match_keys (snd (addPurchasedItem caller ident itemId st))"
    using h by (rule ids_match_addPurchasedItem)
  show "ids_match_keys (snd (deleteDataItem caller ident st))"
    using h by (rule ids_match_deleteDataItem)
  show "ids_match_keys (snd (deletePurchaser caller ident st))"
    using h by (rule ids_match_deletePurchaser)
  show "r = ident" if "fst (deleteDataItem caller ident st) = Ok r"
    using h that by (rule deleteDataItem_returns_key)
  show "q = ident" if "fst (deletePurchaser caller ident st) = Ok q"
    using h that by (rule deletePurchaser_returns_key)
qed


theorem ids_match_keys_is_invariant_witness:
  "ids_match_keys market \<and>
   ids_match_keys (snd (addDataItem alice zero_draws dataset_payload market)) \<and>
   ids_match_keys (snd (addPurchaser alice zero_draws buyer_payload market)) \<and>
   ids_match_keys (snd (updateDataItem alice item_id dataset_payload market)) \<and>
   ids_match_keys (snd (updatePurchaser alice buyer_id buyer_payload market)) \<and>
   ids_match_keys (snd (addPurchasedItem alice buyer_id item_id market)) \<and>
   ids_match_keys (snd (deleteDataItem alice item_id market)) \<and>
   ids_match_keys (snd (deletePurchaser alice buyer_id market)) \<and>
   fst (deleteDataItem alice item_id market) = Ok item_id \<and>
   fst (deletePurchaser alice buyer_id market) = Ok buyer_id"
proof -
  have m: "ids_match_keys market"
    by (simp add: ids_match_keys_def market_def dataset_item_def buyer_def)
  have d: "fst (deleteDataItem alice item_id market) = Ok item_id"
    using item_id_valid
    by (simp add: deleteDataItem_def market_def btree_get_def dataset_item_def)
  have p: "fst (deletePurchaser alice buyer_id market) = Ok buyer_id"
    using buyer_id_valid
    by (simp add: deletePurchaser_def market_def btree_get_def buyer_def)
  show ?thesis
    using m d p
      ids_match_keys_is_invariant
        [of market alice zero_draws dataset_payload buyer_payload item_id item_id item_id buyer_id]
      ids_match_keys_is_invariant
        [of market alice zero_draws dataset_payload buyer_payload buyer_id item_id item_id buyer_id]
    by blast
qed

section \<open>Creating a listing (C3)\<close>

lemma lt16_cases:
  "n < 16 \<Longrightarrow> n \<in> {0, 1, 2, 3, 4, 5, 6, 7, 8, 9, 10, 11, 12, 13, 14, 15::nat}"
  by simp arith

lemma unat_byte_less: "unat (b :: 8 word) < 256"
  using unsigned_less[of b, where 'a = nat] by simp

lemma hex_digit_isHexDigit: "n < 16 \<Longrightarrow> isHexDigit (hex_digit n)"
  by (drule lt16_cases) (auto simp add: hex_digit_def isHexDigit_def)

lemma hex_value_hex_digit: "n < 16 \<Longrightarrow> hex_value (hex_digit n) = n"
  by (drule lt16_cases) (auto simp add: hex_digit_def hex_value_def)

lemma byteToHex_inj: "byteToHex a = byteToHex b \<Longrightarrow> a = b"
proof -
  assume "byteToHex a = byteToHex b"
  then have "hex_digit (unat a div 16) = hex_digit (unat b div 16)"
    "hex_digit (unat a mod 16) = hex_digit (unat b mod 16)"
    by (simp_all add: byteToHex_def)
  then have "hex_value (hex_digit (unat a div 16)) = hex_value (hex_digit (unat b div 16))"
    "hex_value (hex_digit (unat a mod 16)) = hex_value (hex_digit (unat b mod 16))"
    by simp_all
  moreover have "unat a < 256" "unat b < 256"
    by (rule unat_byte_less)+
  then have "unat a div 16 < 16" "unat b div 16 < 16" by simp_all
  ultimately have "unat a div 16 = unat b div 16" "unat a mod 16 = unat b mod 16"
    by (simp_all add: hex_value_hex_digit)
  then have "unat a = unat b"
    by (metis div_mult_mod_eq)
  then show "a = b" by (simp add: word_unat_eq_iff)
qed

lemma length_byteToHex: "length (byteToHex b) = 2"
  by (simp add: byteToHex_def)

lemma length_hex_group: "length (concat (map byteToHex xs)) = 2 * length xs"
  by (induction xs) (simp_all add: length_byteToHex)

lemma isHexDigit_byteToHex: "list_all isHexDigit (byteToHex b)"
proof -
  have "unat b < 256" by (rule unat_byte_less)
  then have "unat b div 16 < 16" by simp
  then show ?thesis by (simp add: byteToHex_def hex_digit_isHexDigit)
qed

lemma isHexDigit_hex_group: "list_all isHexDigit (concat (map byteToHex xs))"
  by (induction xs) (simp_all add: isHexDigit_byteToHex)

lemma hex_group_inj:
  "length xs = length ys \<Longrightarrow> concat (map byteToHex xs) = concat (map byteToHex ys) \<Longrightarrow> xs = ys"
proof (induction xs ys rule: list_induct2)
  case Nil
  then show ?case by simp
next
  case (Cons x xs y ys)
  from Cons.prems have "byteToHex x = byteToHex y \<and>
      concat (map byteToHex xs) = concat (map byteToHex ys)"
    by (simp add: length_byteToHex)
  with Cons.IH show ?case by (simp add: byteToHex_inj)
qed

lemma length_getRandomValues: "length (getRandomValues draws) = 32"
  by (simp add: getRandomValues_def)

lemma length_set_version_bits: "length (set_version_bits rnds) = length rnds"
  by (simp add: set_version_bits_def Let_def)

lemma uuid_pattern_unsafeStringify:
  assumes "16 \<le> length arr"
  shows "uuid_pattern (unsafeStringify arr)"
  unfolding uuid_pattern_def unsafeStringify_def
  apply (rule exI[of _ "concat (map byteToHex (take 4 arr))"])
  apply (rule exI[of _ "concat (map byteToHex (take 2 (drop 4 arr)))"])
  apply (rule exI[of _ "concat (map byteToHex (take 2 (drop 6 arr)))"])
  apply (rule exI[of _ "concat (map byteToHex (take 2 (drop 8 arr)))"])
  apply (rule exI[of _ "concat (map byteToHex (take 6 (drop 10 arr)))"])
  using assms apply (simp add: length_hex_group isHexDigit_hex_group)
  done

lemma uuid_pattern_uuidv4: "uuid_pattern (uuidv4 draws)"
  unfolding uuidv4_def
  by (rule uuid_pattern_unsafeStringify)
     (simp add: length_set_version_bits length_getRandomValues)

lemma take16_split:
  "take 16 arr =
     take 4 arr @ take 2 (drop 4 arr) @ take 2 (drop 6 arr) @ take 2 (drop 8 arr)
       @ take 6 (drop 10 arr)"
proof -
  have "take 16 arr = take (4 + (2 + (2 + (2 + 6)))) arr" by simp
  also have "\<dots> = take 4 arr @ take 2 (drop 4 arr) @ take 2 (drop 6 arr) @ take 2 (drop 8 arr)
       @ take 6 (drop 10 arr)"
    by (simp only: take_add drop_drop) simp
  finally show ?thesis .
qed

lemma unsafeStringify_eq_iff:
  assumes "16 \<le> length a" "16 \<le> length b"
  shows "unsafeStringify a = unsafeStringify b \<longleftrightarrow> take 16 a = take 16 b"
proof
  assume "take 16 a = take 16 b"
  then have "take 4 (take 16 a) = take 4 (take 16 b)"
    "take 2 (drop 4 (take 16 a)) = take 2 (drop 4 (take 16 b))"
    "take 2 (drop 6 (take 16 a)) = take 2 (drop 6 (take 16 b))"
    "take 2 (drop 8 (take 16 a)) = take 2 (drop 8 (take 16 b))"
    "take 6 (drop 10 (take 16 a)) = take 6 (drop 10 (take 16 b))"
    by simp_all
  then show "unsafeStringify a = unsafeStringify b"
    by (simp add: unsafeStringify_def drop_take)
next
  assume "unsafeStringify a = unsafeStringify b"
  then have "concat (map byteToHex (take 4 a)) = concat (map byteToHex (take 4 b)) \<and>
     concat (map byteToHex (take 2 (drop 4 a))) = concat (map byteToHex (take 2 (drop 4 b))) \<and>
     concat (map byteToHex (take 2 (drop 6 a))) = concat (map byteToHex (take 2 (drop 6 b))) \<and>
     concat (map byteToHex (take 2 (drop 8 a))) = concat (map byteToHex (take 2 (drop 8 b))) \<and>
     concat (map byteToHex (take 6 (drop 10 a))) = concat (map byteToHex (take 6 (drop 10 b)))"
    using assms unfolding unsafeStringify_def
    by (simp add: append_eq_append_conv length_hex_group)
  with assms have "take 4 a = take 4 b \<and> take 2 (drop 4 a) = take 2 (drop 4 b) \<and>
     take 2 (drop 6 a) = take 2 (drop 6 b) \<and> take 2 (drop 8 a) = take 2 (drop 8 b) \<and>
     take 6 (drop 10 a) = take 6 (drop 10 b)"
    by (auto intro!: hex_group_inj)
  then show "take 16 a = take 16 b"
    by (simp add: take16_split)
qed

lemma uuidv4_eq_iff:
  "uuidv4 draws = uuidv4 draws' \<longleftrightarrow>
     take 16 (set_version_bits (getRandomValues draws))
       = take 16 (set_version_bits (getRandomValues draws'))"
  unfolding uuidv4_def
  by (rule unsafeStringify_eq_iff)
     (simp_all add: length_set_version_bits length_getRandomValues)


lemma addDataItem_valid:
  "validateDataItemPayload dp = [] \<Longrightarrow>
     addDataItem caller draws dp st =
       (let data = \<lparr>DataItem.id = uuidv4 draws,
                    DataItem.title = DataItemPayload.title dp,
                    DataItem.description = DataItemPayload.description dp,
                    DataItem.price = DataItemPayload.price dp,
                    DataItem.seller = caller,
                    DataItem.attachmentURL = DataItemPayload.attachmentURL dp,
                    DataItem.dataFormat = DataItemPayload.dataFormat dp,
                    DataItem.status = DataItemPayload.status dp,
                    DataItem.quality = DataItemPayload.quality dp,
                    DataItem.rating = DataItemPayload.rating dp\<rparr>
        in (Ok data, st\<lparr>DataItemsStorage := btree_insert (uuidv4 draws) data (DataItemsStorage st)\<rparr>))"
  by (simp add: addDataItem_def Let_def)

text \<open>
  C3, as amended. For every valid DataItem payload \<open>addDataItem\<close> returns \<open>Ok\<close> with a
  record whose id is the generated identifier, which has the canonical 8-4-4-4-12
  form, whose seller is the caller and whose other fields are the payload's; that
  record is stored under that id. The identifier is a function of the random bytes
  alone: two calls produce the same id exactly when their first 16 bytes agree after
  the version and variant bits are forced. Nothing compares a new id with the ids
  already generated or stored.
\<close>

theorem addDataItem_stores_record_under_generated_id:
  "(validateDataItemPayload dp = [] \<longrightarrow>
      (\<exists>d. fst (addDataItem caller draws dp st) = Ok d \<and>
           DataItem.id d = uuidv4 draws \<and> isValidUuid (DataItem.id d) \<and>
           DataItem.seller d = caller \<and>
           DataItem.title d = DataItemPayload.title dp \<and>
           DataItem.description d = DataItemPayload.description dp \<and>
           DataItem.price d = DataItemPayload.price dp \<and>
           DataItem.attachmentURL d = DataItemPayload.attachmentURL dp \<and>
           DataItem.dataFormat d = DataItemPayload.dataFormat dp \<and>
           DataItem.status d = DataItemPayload.status dp \<and>
           DataItem.quality d = DataItemPayload.quality dp \<and>
           DataItem.rating d = DataItemPayload.rating dp \<and>
           btree_get (DataItemsStorage (snd (addDataItem caller draws dp st))) (DataItem.id d)
             = Some d \<and>
           purchasersStorage (snd (addDataItem caller draws dp st)) = purchasersStorage st)) \<and>
   (uuidv4 draws = uuidv4 draws' \<longleftrightarrow>
      take 16 (set_version_bits (getRandomValues draws))
        = take 16 (set_version_bits (getRandomValues draws')))"
proof (intro conjI impI)
  assume "validateDataItemPayload dp = []"
  then show "\<exists>d. fst (addDataItem caller draws dp st) = Ok d \<and>
           DataItem.id d = uuidv4 draws \<and> isValidUuid (DataItem.id d) \<and>
           DataItem.seller d = caller \<and>
           DataItem.title d = DataItemPayload.title dp \<and>
           DataItem.description d = DataItemPayload.description dp \<and>
           DataItem.price d = DataItemPayload.price dp \<and>
           DataItem.attachmentURL d = DataItemPayload.attachmentURL dp \<and>
           DataItem.dataFormat d = DataItemPayload.dataFormat dp \<and>
           DataItem.status d = DataItemPayload.status dp \<and>
           DataItem.quality d = DataItemPayload.quality dp \<and>
           DataItem.rating d = DataItemPayload.rating dp \<and>
           btree_get (DataItemsStorage (snd (addDataItem caller draws dp st))) (DataItem.id d)
             = Some d \<and>
           purchasersStorage (snd (addDataItem caller draws dp st)) = purchasersStorage st"
    by (simp add: addDataItem_valid Let_def btree_get_insert isValidUuid_iff_pattern
        uuid_pattern_uuidv4)
next
  show "uuidv4 draws = uuidv4 draws' \<longleftrightarrow>
      take 16 (set_version_bits (getRandomValues draws))
        = take 16 (set_version_bits (getRandomValues draws'))"
    by (rule uuidv4_eq_iff)
qed

theorem addDataItem_stores_record_under_generated_id_witness:
  "fst (addDataItem alice zero_draws dataset_payload init_canister) = Ok (dataset_listed_by alice) \<and>
   isValidUuid (DataItem.id (dataset_listed_by alice)) \<and>
   btree_get (DataItemsStorage (snd (addDataItem alice zero_draws dataset_payload init_canister)))
     (DataItem.id (dataset_listed_by alice)) = Some (dataset_listed_by alice) \<and>
   uuidv4 counting_draws \<noteq> uuidv4 zero_draws \<and>
   take 16 (set_version_bits (getRandomValues counting_draws))
     \<noteq> take 16 (set_version_bits (getRandomValues zero_draws))"
proof -
  have differ: "uuidv4 counting_draws \<noteq> uuidv4 zero_draws"
    by (simp add: uuidv4_counting_draws uuidv4_zero_draws)
  with addDataItem_stores_record_under_generated_id
         [of dataset_payload alice counting_draws init_canister zero_draws]
  have bytes: "take 16 (set_version_bits (getRandomValues counting_draws))
     \<noteq> take 16 (set_version_bits (getRandomValues zero_draws))"
    by simp
  from addDataItem_stores_record_under_generated_id
         [of dataset_payload alice zero_draws init_canister zero_draws]
       dataset_payload_valid
  obtain d where d: "fst (addDataItem alice zero_draws dataset_payload init_canister) = Ok d"
    "isValidUuid (DataItem.id d)"
    "btree_get (DataItemsStorage (snd (addDataItem alice zero_draws dataset_payload init_canister)))
       (DataItem.id d) = Some d"
    by blast
  have "fst (addDataItem alice zero_draws dataset_payload init_canister) = Ok (dataset_listed_by alice)"
    unfolding addDataItem_valid[OF dataset_payload_valid]
    by (simp add: Let_def uuidv4_zero_draws dataset_listed_by_def dataset_payload_def)
  with d differ bytes show ?thesis by simp
qed

text \<open>
  The claim as stated fails when \<open>Math.random\<close> repeats its values: the second listing
  then gets the id of the first and replaces it in the store.
\<close>

theorem addDataItem_repeats_id_when_draws_repeat:
  "fst (addDataItem bob zero_draws dataset_payload init_canister) = Ok (dataset_listed_by bob) \<and>
   getDataItems (snd (addDataItem bob zero_draws dataset_payload init_canister))
     = [dataset_listed_by bob] \<and>
   fst (addDataItem alice zero_draws dataset_payload
          (snd (addDataItem bob zero_draws dataset_payload init_canister)))
     = Ok (dataset_listed_by alice) \<and>
   DataItem.id (dataset_listed_by alice) = DataItem.id (dataset_listed_by bob) \<and>
   getDataItems (snd (addDataItem alice zero_draws dataset_payload
          (snd (addDataItem bob zero_draws dataset_payload init_canister))))
     = [dataset_listed_by alice]"
  unfolding addDataItem_valid[OF dataset_payload_valid]
  by (simp add: Let_def uuidv4_zero_draws dataset_listed_by_def dataset_payload_def
      init_canister_def getDataItems_def btree_values_def)


section \<open>Search and filter (C8)\<close>




text \<open>
  On code units below 256 the Unicode \<open>toLowerCase\<close> is \<open>toLowerCase_latin1\<close>, for every
  database whose simple mapping is the one of Unicode there.
\<close>

lemma lower_from_below_256:
  assumes "\<forall>n<256. lower_mapping db n
             = (if (65 \<le> n \<and> n \<le> 90) \<or> (192 \<le> n \<and> n \<le> 222 \<and> n \<noteq> 215) then n + 32 else n)"
  shows "lower_from db before (map of_char s) = map of_char (map lower_char s)"
proof (induction s arbitrary: before)
  case Nil
  then show ?case by simp
next
  case (Cons c s)
  have lt: "(of_char c :: nat) < 256" by simp
  then have ne: "(of_char c :: nat) \<noteq> 0x130" "(of_char c :: nat) \<noteq> 0x3A3" by linarith+
  have "(of_char (lower_char c) :: nat) = lower_mapping db (of_char c)"
    using lt assms by (simp add: lower_char_def Let_def)
  with ne Cons.IH[of "of_char c # before"] show ?case by simp
qed

lemma toLowerCase_below_256:
  assumes "\<forall>n<256. lower_mapping db n
             = (if (65 \<le> n \<and> n \<le> 90) \<or> (192 \<le> n \<and> n \<le> 222 \<and> n \<noteq> 215) then n + 32 else n)"
  shows "toLowerCase db (map of_char s) = map of_char (toLowerCase_latin1 s)"
  using lower_from_below_256[OF assms] by (simp add: toLowerCase_def toLowerCase_latin1_def)

lemma letters_tables_below_256:
  "\<forall>n<256. lower_mapping letters_tables n
     = (if (65 \<le> n \<and> n \<le> 90) \<or> (192 \<le> n \<and> n \<le> 222 \<and> n \<noteq> 215) then n + 32 else n)"
  by (simp add: letters_tables_def letters_lower_def)




section \<open>Pagination (C9)\<close>

text \<open>The bit length brackets its argument between two powers of two.\<close>

lemma bit_length_le: "n < 2 ^ k \<Longrightarrow> bit_length n \<le> k"
proof (induction n arbitrary: k rule: bit_length.induct)
  case (1 n)
  show ?case
  proof (cases "n = 0")
    case True
    then show ?thesis by (simp add: bit_length.simps)
  next
    case False
    with "1.prems" obtain j where k: "k = Suc j" by (cases k) auto
    with "1.prems" have "n div 2 < 2 ^ j" by auto
    with False "1.IH" have "bit_length (n div 2) \<le> j" by blast
    with False k show ?thesis by (simp add: bit_length.simps[of n])
  qed
qed

lemma bit_length_lower: "0 < n \<Longrightarrow> 2 ^ (bit_length n - 1) \<le> n"
proof (induction n rule: bit_length.induct)
  case (1 n)
  show ?case
  proof (cases "n div 2 = 0")
    case True
    with "1.prems" have "n = 1" by auto
    then show ?thesis by (simp add: bit_length.simps)
  next
    case False
    with "1.IH" "1.prems" have ih: "2 ^ (bit_length (n div 2) - 1) \<le> n div 2" by simp
    from False have "0 < bit_length (n div 2)" by (simp add: bit_length.simps[of "n div 2"])
    then obtain j where j: "bit_length (n div 2) = Suc j" by (cases "bit_length (n div 2)") auto
    with ih have "2 ^ j \<le> n div 2" by simp
    then have "2 * 2 ^ j \<le> n" by simp
    with "1.prems" j show ?thesis by (simp add: bit_length.simps[of n])
  qed
qed

lemma Number_exact: "b < 2 ^ 53 \<Longrightarrow> Number b = b"
  using bit_length_le[of b 53] by (simp add: Number_def)

lemma Number_large:
  assumes "2 ^ 53 \<le> b"
  shows "2 ^ 53 \<le> Number b"
proof (cases "bit_length b - 53 = 0")
  case True
  with assms show ?thesis by (simp add: Number_def)
next
  case False
  define e where "e = bit_length b - 53"
  from False have e: "0 < e" "bit_length b - 1 = 52 + e" by (simp_all add: e_def)
  from assms have "0 < b" by simp
  then have "2 ^ (52 + e) \<le> b" using bit_length_lower[of b] e by simp
  then have "(2 ^ 52 * 2 ^ e) div 2 ^ e \<le> b div 2 ^ e"
    by (intro div_le_mono) (simp add: power_add)
  then have q: "2 ^ 52 \<le> b div 2 ^ e" by simp
  have "(2::nat) ^ 53 = 2 ^ 52 * 2 ^ 1" by simp
  also have "\<dots> \<le> 2 ^ 52 * 2 ^ e"
    using e(1) by (intro mult_le_mono2 power_increasing) simp_all
  also have "\<dots> \<le> (b div 2 ^ e) * 2 ^ e"
    using q by (intro mult_le_mono1)
  finally have base: "2 ^ 53 \<le> (b div 2 ^ e) * 2 ^ e" .
  also have "\<dots> \<le> (b div 2 ^ e + 1) * 2 ^ e" by simp
  finally have up: "2 ^ 53 \<le> (b div 2 ^ e + 1) * 2 ^ e" .
  from False base up show ?thesis
    by (simp add: Number_def Let_def e_def[symmetric])
qed

lemma min_Number:
  assumes "len < 2 ^ 53"
  shows "min (Number b) len = min b len"
proof (cases "b < 2 ^ 53")
  case True
  then show ?thesis by (simp add: Number_exact)
next
  case False
  then have "2 ^ 53 \<le> b" by simp
  with Number_large[of b] assms show ?thesis by simp
qed

lemma take_min_length: "take (min n (length xs)) xs = take n xs"
  by (cases "n \<le> length xs") (simp_all add: min_def)

lemma array_slice_take_drop:
  "array_slice xs s (s + l) = take l (drop s xs)"
proof (cases "s \<le> length xs")
  case True
  then have "min (s + l) (length xs) - s = min l (length xs - s)" by auto
  moreover have "take (min l (length xs - s)) (drop s xs) = take l (drop s xs)"
    using take_min_length[of l "drop s xs"] by simp
  ultimately show ?thesis using True by (simp add: array_slice_def Let_def min_absorb1)
next
  case False
  then show ?thesis by (simp add: array_slice_def Let_def)
qed

lemma array_slice_clamped:
  assumes "min a (length xs) = min s (length xs)" "min b (length xs) = min (s + l) (length xs)"
  shows "array_slice xs a b = take l (drop s xs)"
proof -
  have "array_slice xs a b = array_slice xs s (s + l)"
    using assms by (simp add: array_slice_def Let_def)
  then show ?thesis by (simp add: array_slice_take_drop)
qed

text \<open>
  C9. For every \<open>start\<close> and \<open>limit\<close>, \<open>getMoreDataItems\<close> returns the contiguous slice of
  \<open>values()\<close> that begins at offset \<open>start\<close> and holds at most \<open>limit\<close> records, clamped
  to the records available; when \<open>start\<close> is at or beyond the number of stored records
  the result is empty. The conversion of the two \<open>bigint\<close> bounds to doubles is exact
  below \<open>2 ^ 53\<close> and never falls below it otherwise, so it cannot move the slice as
  long as the store holds fewer than \<open>2 ^ 53\<close> records (an array holds fewer than
  \<open>2 ^ 32\<close>).
\<close>

theorem getMoreDataItems_is_clamped_slice:
  "length (getDataItems st) < 2 ^ 53 \<longrightarrow>
     getMoreDataItems st start limit
       = take (unat limit) (drop (unat start) (getDataItems st)) \<and>
     sublist (getMoreDataItems st start limit) (getDataItems st) \<and>
     length (getMoreDataItems st start limit) \<le> unat limit \<and>
     (length (getDataItems st) \<le> unat start \<longrightarrow> getMoreDataItems st start limit = [])"
proof
  assume len: "length (getDataItems st) < 2 ^ 53"
  then have eq: "getMoreDataItems st start limit
       = take (unat limit) (drop (unat start) (getDataItems st))"
    unfolding getMoreDataItems_def getDataItems_def Let_def
    by (intro array_slice_clamped min_Number)
  have "sublist (take (unat limit) (drop (unat start) (getDataItems st))) (getDataItems st)"
    by (rule sublist_order.order_trans[OF sublist_take sublist_drop])
  with eq show "getMoreDataItems st start limit
       = take (unat limit) (drop (unat start) (getDataItems st)) \<and>
     sublist (getMoreDataItems st start limit) (getDataItems st) \<and>
     length (getMoreDataItems st start limit) \<le> unat limit \<and>
     (length (getDataItems st) \<le> unat start \<longrightarrow> getMoreDataItems st start limit = [])"
    by simp
qed

theorem getMoreDataItems_is_clamped_slice_witness:
  "length (getDataItems catalogue) = 4 \<and>
   getMoreDataItems catalogue 5 3 = [] \<and>
   getMoreDataItems catalogue 1 2 = [listing2, listing3] \<and>
   getMoreDataItems catalogue 2 18446744073709551615 = [listing3, listing4]"
proof -
  have v: "getDataItems catalogue = [listing1, listing2, listing3, listing4]"
    by (simp add: getDataItems_def catalogue_def btree_values_def)
  show ?thesis
    using getMoreDataItems_is_clamped_slice[of catalogue 5 3]
      getMoreDataItems_is_clamped_slice[of catalogue 1 2]
      getMoreDataItems_is_clamped_slice[of catalogue 2 18446744073709551615]
    by (simp add: v)
qed


end
